theory Spec2Isabelle
  imports Complex_Main "HOL-Library.Word"
begin

section \<open>The Graphite adapter of Bosun's expression language\<close>

text \<open>
  This theory embeds \<^verbatim>\<open>cmd/bosun/expr/tsdbs/graphite/graphite.go\<close>: the response
  decoder \<^verbatim>\<open>parseGraphiteResponse\<close>, the window executor \<^verbatim>\<open>timeRequest\<close>, the band
  orchestrator \<^verbatim>\<open>Band\<close> and the single-window \<^verbatim>\<open>Query\<close>.
\<close>

subsection \<open>Instants and durations\<close>

text \<open>
  A \<^verbatim>\<open>time.Duration\<close> (and \<^verbatim>\<open>opentsdb.Duration\<close>) is a signed 64-bit count of
  nanoseconds, so negating it wraps at the smallest value. An instant (\<^verbatim>\<open>time.Time\<close>) is
  modelled as its number of nanoseconds relative to the Unix epoch; Go's instants range
  over 64-bit seconds, far beyond what a sum of 64-bit nanosecond durations reaches from
  any realistic clock reading, so the saturation of \<^verbatim>\<open>Time.Add\<close> at that range is not
  modelled.
\<close>

type_synonym Time = int

type_synonym Duration = "64 word"

definition Add :: "Time \<Rightarrow> Duration \<Rightarrow> Time" where
  "Add t d = t + sint d"

definition Unix :: "64 word \<Rightarrow> 64 word \<Rightarrow> Time" where
  "Unix sec nsec = sint sec * 1000000000 + sint nsec"

subsection \<open>Floating-point numbers\<close>

text \<open>
  The repeat count of \<^verbatim>\<open>Band\<close> is a \<^verbatim>\<open>float64\<close>: a finite number, which is a rational,
  an infinity or NaN. \<open>flt\<close> and \<open>fgt\<close> are \<^verbatim>\<open><\<close> and \<^verbatim>\<open>>\<close> against a finite constant;
  both are false for NaN.
\<close>

datatype float64 = Finite rat | PosInf | NegInf | NaN

fun flt :: "float64 \<Rightarrow> rat \<Rightarrow> bool" where
  "flt (Finite x) c = (x < c)"
| "flt PosInf c = False"
| "flt NegInf c = True"
| "flt NaN c = False"

fun fgt :: "float64 \<Rightarrow> rat \<Rightarrow> bool" where
  "fgt (Finite x) c = (x > c)"
| "fgt PosInf c = True"
| "fgt NegInf c = False"
| "fgt NaN c = False"

subsection \<open>Data model\<close>

type_synonym TagSet = "string \<rightharpoonup> string"

type_synonym 'v Series = "Time \<rightharpoonup> 'v"

text \<open>
  Modelled from the spec: the types of the packages \<^verbatim>\<open>expr\<close>, \<^verbatim>\<open>opentsdb\<close> and
  \<^verbatim>\<open>graphite\<close> are not in the file. A tag set maps tag keys to tag values, and a series
  maps instants to values.

  \<^verbatim>\<open>expr.Element\<close>: at this layer the \<^verbatim>\<open>Value\<close> of an element is always a series (the
  source asserts \<^verbatim>\<open>Value.(expr.Series)\<close>). The type \<open>'v\<close> stands for \<^verbatim>\<open>float64\<close>, whose
  arithmetic the adapter never uses.
\<close>

record 'v Element =
  Value :: "'v Series"
  Group :: TagSet

text \<open>\<^verbatim>\<open>expr.ValueSet\<close>: the elements and the two join flags.\<close>

record 'v ValueSet =
  Elements :: "'v Element list"
  IgnoreUnjoined :: bool
  IgnoreOtherUnjoined :: bool

text \<open>
  \<^verbatim>\<open>graphite.Series\<close> and \<^verbatim>\<open>graphite.Response\<close>: a datapoint is a list of
  \<^verbatim>\<open>json.Number\<close> tokens, which are strings.
\<close>

record RawSeries =
  Datapoints :: "string list list"
  Target :: string

type_synonym Response = "RawSeries list"

text \<open>
  \<^verbatim>\<open>graphite.Request\<close>. \<^verbatim>\<open>Start\<close> and \<^verbatim>\<open>End\<close> are pointers to instants: the model
  holds the address of the variable pointed at (\<open>None\<close> is nil), and the instants are in
  the memory of the state below. Two requests with the same address share the instant,
  and see every later assignment to it. \<^verbatim>\<open>URL\<close> stands for its text, as \<^verbatim>\<open>%s\<close> prints
  it; the adapter never writes through that pointer.
\<close>

type_synonym addr = nat

record Request =
  Targets :: "string list"
  Start :: "addr option"
  End :: "addr option"
  URL :: "string option"

text \<open>
  What a reader finds in a request at one moment: the targets, the instants its
  pointers lead to at that moment, and the URL.
\<close>

record Snapshot =
  snapTargets :: "string list"
  snapStart :: "Time option"
  snapEnd :: "Time option"
  snapURL :: "string option"

subsection \<open>Errors\<close>

text \<open>
  Every error of the source is built by \<^verbatim>\<open>fmt.Errorf\<close>. The model keeps what each
  message is built from instead of the formatted text. A decode error is
  \<^verbatim>\<open>"graphite ParseError (%s): %s"\<close> of the request's URL and a cause.
\<close>

datatype cause =
    Message string
  | TargetMismatch string "string list"
  | InvalidTag string string
  | DuplicateTagset string
  | DatapointFields "string list"
  | ValueNotFloat64 string string
  | TimestampNotInt64 string string

datatype error =
    ParseError "string option" cause
  | NumOutOfBounds
  | Foreign string
  | GraphiteBand error

subsection \<open>Collaborators\<close>

text \<open>
  The packages \<^verbatim>\<open>opentsdb\<close>, \<^verbatim>\<open>graphite\<close> and \<^verbatim>\<open>encoding/json\<close> are not part of the
  file. What the adapter calls of them is a parameter of the model:
  \<^item> \<open>ParseDuration\<close> is \<^verbatim>\<open>opentsdb.ParseDuration\<close>;
  \<^item> \<open>Valid\<close> and \<open>String\<close> are \<^verbatim>\<open>TagSet.Valid\<close> and \<^verbatim>\<open>TagSet.String\<close>;
  \<^item> \<open>Float64\<close> and \<open>Int64\<close> are the two conversions of \<^verbatim>\<open>json.Number\<close>;
  \<^item> \<open>Get\<close> is \<^verbatim>\<open>e.Cache.Get(req.CacheKey(), ...)\<close> around \<^verbatim>\<open>e.Graphite.Query(req)\<close>:
    from the state \<open>'c\<close> of cache and backend and what it reads in the request during
    the call, it gives the answer, the URL the request holds afterwards (the transport
    receives the request by reference) and the next state;
  \<^item> \<open>OutOfRangeInt\<close> is the 64-bit integer that the conversion \<^verbatim>\<open>int(num)\<close> gives for
    a \<^verbatim>\<open>float64\<close> that no 64-bit integer holds (beyond the range, infinite or NaN). Go
    leaves it to the platform; on amd64 it is the smallest integer.
  An error of a collaborator is its message.
\<close>

record ('v, 'c) Deps =
  ParseDuration :: "string \<Rightarrow> string + Duration"
  Valid :: "TagSet \<Rightarrow> bool"
  String :: "TagSet \<Rightarrow> string"
  Float64 :: "string \<Rightarrow> string + 'v"
  Int64 :: "string \<Rightarrow> string + 64 word"
  Get :: "'c \<Rightarrow> Snapshot \<Rightarrow> (string + Response) \<times> string option \<times> 'c"
  OutOfRangeInt :: "float64 \<Rightarrow> 64 word"

text \<open>
  Modelled from the spec: \<^verbatim>\<open>expr.State\<close> is not in the file. Of it the adapter uses the
  evaluation instant \<^verbatim>\<open>e.Now()\<close>, which the caller's clock supplies and which is the same
  during a call, the list \<^verbatim>\<open>GraphiteQueries\<close> of issued requests, to which requests are
  only appended, and cache and backend, whose state is \<open>'c\<close>.

  \<open>Mem\<close> is not a field of \<^verbatim>\<open>expr.State\<close>: it is the memory that holds the variables of
  type \<^verbatim>\<open>time.Time\<close> whose address the adapter takes, one cell for each, at the address
  that is its position. It is threaded with the state because the recorded requests
  point into it.
\<close>

record 'c State =
  Now :: Time
  GraphiteQueries :: "Request list"
  Cache :: 'c
  Mem :: "Time list"

text \<open>
  A variable whose address is taken is a new cell (\<open>alloc\<close>); an assignment to it
  overwrites the cell (\<open>store\<close>); reading it, or following a pointer to it, reads the cell
  (\<open>load\<close>). Every address the adapter follows comes from an \<open>alloc\<close> before.
\<close>

definition alloc :: "'c State \<Rightarrow> Time \<Rightarrow> addr \<times> 'c State" where
  "alloc e t = (length (Mem e), e\<lparr>Mem := Mem e @ [t]\<rparr>)"

definition store :: "'c State \<Rightarrow> addr \<Rightarrow> Time \<Rightarrow> 'c State" where
  "store e a t = e\<lparr>Mem := (Mem e)[a := t]\<rparr>"

definition load :: "'c State \<Rightarrow> addr \<Rightarrow> Time" where
  "load e a = Mem e ! a"

definition snapshot :: "'c State \<Rightarrow> Request \<Rightarrow> Snapshot" where
  "snapshot e req =
     \<lparr>snapTargets = Targets req, snapStart = map_option (load e) (Start req),
      snapEnd = map_option (load e) (End req), snapURL = URL req\<rparr>"

subsection \<open>Library functions\<close>

text \<open>\<^verbatim>\<open>strings.Split(s, sep)\<close> for a separator of one character.\<close>

fun Split :: "string \<Rightarrow> char \<Rightarrow> string list" where
  "Split [] sep = [[]]"
| "Split (c # cs) sep =
     (if c = sep then [] # Split cs sep
      else (case Split cs sep of [] \<Rightarrow> [[c]] | x # xs \<Rightarrow> (c # x) # xs))"

text \<open>
  Modelled from the spec: \<^verbatim>\<open>TagSet.Equal\<close> of package \<^verbatim>\<open>opentsdb\<close> is not in the file;
  two tag sets are equal iff they contain the same key/value pairs.
\<close>

definition Equal :: "TagSet \<Rightarrow> TagSet \<Rightarrow> bool" where
  "Equal t u = (t = u)"

text \<open>
  Modelled from the spec: \<^verbatim>\<open>ValueSet.Append\<close> of package \<^verbatim>\<open>expr\<close> is not in the file;
  it appends the element as the last one.
\<close>

definition Append :: "'v ValueSet \<Rightarrow> 'v Element \<Rightarrow> 'v ValueSet" where
  "Append r el = r\<lparr>Elements := Elements r @ [el]\<rparr>"

subsection \<open>The response decoder\<close>

text \<open>The block \<^verbatim>\<open>// build tag set\<close> of \<^verbatim>\<open>parseGraphiteResponse\<close>.\<close>

definition buildTagSet :: "Request \<Rightarrow> string list \<Rightarrow> RawSeries \<Rightarrow> error + TagSet" where
  "buildTagSet req formatTags res =
     (if length formatTags = 1 \<and> formatTags ! 0 = '''' then
        Inr (Map.empty(''key'' \<mapsto> Target res))
      else
        let nodes = Split (Target res) CHR ''.'' in
        if length nodes < length formatTags then
          Inl (ParseError (URL req) (TargetMismatch (Target res) formatTags))
        else
          Inr (fold (\<lambda>i tags. let key = formatTags ! i in
                       if length key > 0 then tags(key \<mapsto> nodes ! i) else tags)
                 [0..<length formatTags] Map.empty))"

text \<open>
  The block \<^verbatim>\<open>// build data\<close>: the loop over the datapoints of one series, from the
  series built so far.
\<close>

fun buildData ::
  "('v, 'c) Deps \<Rightarrow> Request \<Rightarrow> string list list \<Rightarrow> 'v Series \<Rightarrow> error + 'v Series" where
  "buildData deps req [] dps = Inr dps"
| "buildData deps req (dp # rest) dps =
     (if length dp \<noteq> 2 then Inl (ParseError (URL req) (DatapointFields dp))
      else if length (dp ! 0) = 0 then buildData deps req rest dps
      else
        (case Float64 deps (dp ! 0) of
           Inl err \<Rightarrow> Inl (ParseError (URL req) (ValueNotFloat64 (dp ! 0) err))
         | Inr val \<Rightarrow>
            (case Int64 deps (dp ! 1) of
               Inl err \<Rightarrow> Inl (ParseError (URL req) (TimestampNotInt64 (dp ! 1) err))
             | Inr unixTS \<Rightarrow> buildData deps req rest (dps(Unix unixTS 0 \<mapsto> val)))))"

text \<open>
  The loop \<^verbatim>\<open>for _, res := range *s\<close>, from the set \<open>seen\<close> of canonical strings and
  the \<open>results\<close> built so far.
\<close>

fun parseSeries ::
  "('v, 'c) Deps \<Rightarrow> Request \<Rightarrow> string list \<Rightarrow> RawSeries list \<Rightarrow> string set \<Rightarrow>
     'v Element list \<Rightarrow> error + 'v Element list" where
  "parseSeries deps req formatTags [] seen results = Inr results"
| "parseSeries deps req formatTags (res # rest) seen results =
     (case buildTagSet req formatTags res of
        Inl err \<Rightarrow> Inl err
      | Inr tags \<Rightarrow>
          if \<not> Valid deps tags then
            Inl (ParseError (URL req) (InvalidTag (Target res) (String deps tags)))
          else
            let ts = String deps tags in
            if ts \<in> seen then Inl (ParseError (URL req) (DuplicateTagset ts))
            else
              (case buildData deps req (Datapoints res) Map.empty of
                 Inl err \<Rightarrow> Inl err
               | Inr dps \<Rightarrow>
                   parseSeries deps req formatTags rest (insert ts seen)
                     (results @ [\<lparr>Value = dps, Group = tags\<rparr>])))"

definition parseGraphiteResponse ::
  "('v, 'c) Deps \<Rightarrow> Request \<Rightarrow> Response \<Rightarrow> string list \<Rightarrow> error + 'v Element list" where
  "parseGraphiteResponse deps req s formatTags =
     (if length s = 0 then Inl (ParseError (URL req) (Message ''empty response''))
      else parseSeries deps req formatTags s {} [])"

subsection \<open>The window executor\<close>

text \<open>
  \<^verbatim>\<open>timeRequest\<close> appends a copy of the request to \<^verbatim>\<open>GraphiteQueries\<close>, then asks
  cache and backend. The copy is shallow: it holds the same pointers \<^verbatim>\<open>Start\<close> and
  \<^verbatim>\<open>End\<close> as the request. Cache and backend read the request while they are called.
\<close>

definition timeRequest ::
  "('v, 'c) Deps \<Rightarrow> 'c State \<Rightarrow> Request \<Rightarrow> (string + Response) \<times> Request \<times> 'c State" where
  "timeRequest deps e req =
     (let e1 = e\<lparr>GraphiteQueries := GraphiteQueries e @ [req]\<rparr>;
          (resp, url, c) = Get deps (Cache e1) (snapshot e1 req)
      in (resp, req\<lparr>URL := url\<rparr>, e1\<lparr>Cache := c\<rparr>))"

subsection \<open>The band orchestrator\<close>

text \<open>
  The loop \<^verbatim>\<open>for j, existing := range r.Elements\<close>: the position of the first element
  whose group equals the result's (\<open>None\<close> is \<^verbatim>\<open>updateKey == -1\<close>).
\<close>

fun findExisting :: "'v Element \<Rightarrow> 'v Element list \<Rightarrow> nat \<Rightarrow> nat option" where
  "findExisting result [] j = None"
| "findExisting result (existing # rest) j =
     (if Equal (Group result) (Group existing) then Some j
      else findExisting result rest (Suc j))"

text \<open>
  The body of \<^verbatim>\<open>for _, result := range results\<close>. Writing every pair of the result's
  series into the target series, in whatever order Go ranges over the map, is \<open>++\<close>
  (the keys of a map are distinct). After \<^verbatim>\<open>r.Append(result)\<close> the target is the
  appended element itself.
\<close>

definition mergeResult :: "'v ValueSet \<Rightarrow> 'v Element \<Rightarrow> 'v ValueSet" where
  "mergeResult r result =
     (let (r1, updateKey) =
            (case findExisting result (Elements r) 0 of
               None \<Rightarrow> (let r1 = Append r result in (r1, length (Elements r1) - 1))
             | Some j \<Rightarrow> (r, j));
          target = Elements r1 ! updateKey
      in r1\<lparr>Elements :=
            (Elements r1)[updateKey := target\<lparr>Value := Value target ++ Value result\<rparr>]\<rparr>)"


text \<open>
  The first four statements of the loop body: \<^verbatim>\<open>now = now.Add(time.Duration(-p))\<close>
  assigns to the variable \<^verbatim>\<open>now\<close>, which is the cell at address \<open>now\<close>;
  \<^verbatim>\<open>req.End = &now\<close> points the request at that cell, as in every other window;
  \<^verbatim>\<open>st := now.Add(time.Duration(-d))\<close> is a new variable in every iteration, and
  \<^verbatim>\<open>req.Start = &st\<close> points the request at it.
\<close>

definition nextWindow ::
  "'c State \<Rightarrow> Duration \<Rightarrow> Duration \<Rightarrow> addr \<Rightarrow> Request \<Rightarrow> Request \<times> 'c State" where
  "nextWindow e d p now req =
     (let e1 = store e now (Add (load e now) (- p));
          req1 = req\<lparr>End := Some now\<rparr>;
          (st, e2) = alloc e1 (Add (load e1 now) (- d));
          req2 = req1\<lparr>Start := Some st\<rparr>
      in (req2, e2))"

text \<open>
  The loop \<^verbatim>\<open>for i := 0; i < int(num); i++\<close> of \<^verbatim>\<open>Band\<close>, with the variables it reads
  and writes: the address of \<^verbatim>\<open>now\<close>, the request, the result set, the error and the
  state. It returns as the closure does: at the first failing window, or when \<open>i\<close>
  reaches \<open>n\<close>.
\<close>

function bandLoop ::
  "('v, 'c) Deps \<Rightarrow> Duration \<Rightarrow> Duration \<Rightarrow> string \<Rightarrow> int \<Rightarrow> int \<Rightarrow> addr \<Rightarrow> Request \<Rightarrow>
     'v ValueSet \<Rightarrow> error option \<Rightarrow> 'c State \<Rightarrow> error option \<times> 'v ValueSet \<times> 'c State" where
  "bandLoop deps d p format n i now req r err e =
     (if i < n then
        let (req2, e2) = nextWindow e d p now req;
            (resp, req3, e3) = timeRequest deps e2 req2
        in (case resp of
              Inl err1 \<Rightarrow> (Some (Foreign err1), r, e3)
            | Inr s \<Rightarrow>
               (let formatTags = Split format CHR ''.'' in
                case parseGraphiteResponse deps req3 s formatTags of
                  Inl err1 \<Rightarrow> (Some err1, r, e3)
                | Inr results \<Rightarrow>
                    bandLoop deps d p format n (i + 1) now req3
                      (if i = 0 then r\<lparr>Elements := results\<rparr> else foldl mergeResult r results)
                      None e3))
      else (err, r, e))"
  by pat_completeness auto
termination
  by (relation "measure (\<lambda>(deps, d, p, format, n, i, now, req, r, err, e). nat (n - i))") auto

text \<open>
  \<^verbatim>\<open>int(num)\<close>: Go's \<^verbatim>\<open>int\<close> has 64 bits here. A finite number is truncated toward
  zero when the result fits; every other conversion is the platform's.
\<close>

definition toInt :: "('v, 'c) Deps \<Rightarrow> float64 \<Rightarrow> int" where
  "toInt deps num =
     (case num of
        Finite x \<Rightarrow>
          (let t = (if 0 \<le> x then \<lfloor>x\<rfloor> else \<lceil>x\<rceil>) in
           if - (2 ^ 63) \<le> t \<and> t < 2 ^ 63 then t else sint (OutOfRangeInt deps num))
      | _ \<Rightarrow> sint (OutOfRangeInt deps num))"

text \<open>
  \<^verbatim>\<open>Band\<close>. The closure run by \<^verbatim>\<open>e.Timer.Step\<close> leaves \<open>err\<close> and \<open>r\<close>; the bounds check
  on \<open>num\<close> assigns \<open>err\<close> and goes on, as the source does.
\<close>

definition Band ::
  "('v, 'c) Deps \<Rightarrow> 'c State \<Rightarrow> string \<Rightarrow> string \<Rightarrow> string \<Rightarrow> string \<Rightarrow> float64 \<Rightarrow>
     (error + 'v ValueSet) \<times> 'c State" where
  "Band deps e query duration period format num =
     (let r = \<lparr>Elements = [], IgnoreUnjoined = True, IgnoreOtherUnjoined = True\<rparr>;
          (err, r1, e1) =
            (case ParseDuration deps duration of
               Inl err1 \<Rightarrow> (Some (Foreign err1), r, e)
             | Inr d \<Rightarrow>
                (case ParseDuration deps period of
                   Inl err1 \<Rightarrow> (Some (Foreign err1), r, e)
                 | Inr p \<Rightarrow>
                    (let err = (if flt num 1 \<or> fgt num 100 then Some NumOutOfBounds else None);
                         req = \<lparr>Targets = [query], Start = None, End = None, URL = None\<rparr>;
                         (now, e1) = alloc e (Now e);
                         req1 = req\<lparr>End := Some now\<rparr>;
                         (st, e2) = alloc e1 (Add (load e1 now) (- d));
                         req2 = req1\<lparr>Start := Some st\<rparr>
                     in bandLoop deps d p format (toInt deps num) 0 now req2 r err e2)))
      in (case err of
            Some err1 \<Rightarrow> (Inl (GraphiteBand err1), e1)
          | None \<Rightarrow> (Inr r1, e1)))"

subsection \<open>The single-window query\<close>

text \<open>\<^verbatim>\<open>Query\<close>. The request points at its two variables \<^verbatim>\<open>st\<close> and \<^verbatim>\<open>et\<close>.\<close>

definition Query ::
  "('v, 'c) Deps \<Rightarrow> 'c State \<Rightarrow> string \<Rightarrow> string \<Rightarrow> string \<Rightarrow> string \<Rightarrow>
     (error + 'v ValueSet) \<times> 'c State" where
  "Query deps e query sduration eduration format =
     (case ParseDuration deps sduration of
        Inl err \<Rightarrow> (Inl (Foreign err), e)
      | Inr sd \<Rightarrow>
         (case (if eduration \<noteq> '''' then ParseDuration deps eduration else Inr 0) of
            Inl err \<Rightarrow> (Inl (Foreign err), e)
          | Inr ed \<Rightarrow>
             (let (st, e1) = alloc e (Add (Now e) (- sd));
                  (et, e2) = alloc e1 (Add (Now e1) (- ed));
                  req = \<lparr>Targets = [query], Start = Some st, End = Some et, URL = None\<rparr>;
                  (resp, req1, e3) = timeRequest deps e2 req
              in (case resp of
                    Inl err \<Rightarrow> (Inl (Foreign err), e3)
                  | Inr s \<Rightarrow>
                     (let formatTags = Split format CHR ''.'';
                          r = \<lparr>Elements = [], IgnoreUnjoined = False,
                                IgnoreOtherUnjoined = False\<rparr>
                      in (case parseGraphiteResponse deps req1 s formatTags of
                            Inl err \<Rightarrow> (Inl err, e3)
                          | Inr results \<Rightarrow> (Inr (r\<lparr>Elements := results\<rparr>), e3)))))))"

subsection \<open>Collaborators that keep a record\<close>

text \<open>
  Any collaborators can be made to keep a record of what cache and backend read in the
  requests given to them: \<open>traced deps\<close> answers as \<open>deps\<close> does, and the state of its
  cache and backend has in addition the list of what they have read, in the order of the
  calls. \<open>withTrace e t\<close> is the state \<open>e\<close> with the record \<open>t\<close>.
\<close>

definition traced :: "('v, 'c) Deps \<Rightarrow> ('v, 'c \<times> Snapshot list) Deps" where
  "traced deps =
     \<lparr>ParseDuration = ParseDuration deps, Valid = Valid deps, String = String deps,
      Float64 = Float64 deps, Int64 = Int64 deps,
      Get = (\<lambda>(c, t) q. let (resp, url, c1) = Get deps c q in (resp, url, (c1, t @ [q]))),
      OutOfRangeInt = OutOfRangeInt deps\<rparr>"

definition withTrace :: "'c State \<Rightarrow> Snapshot list \<Rightarrow> ('c \<times> Snapshot list) State" where
  "withTrace e t =
     \<lparr>Now = Now e, GraphiteQueries = GraphiteQueries e, Cache = (Cache e, t), Mem = Mem e\<rparr>"

subsection \<open>Sample collaborators\<close>

text \<open>
  Concrete collaborators for evaluating the model: a duration parser that knows
  \<^verbatim>\<open>"1h"\<close>, \<^verbatim>\<open>"2h"\<close>, \<^verbatim>\<open>"0"\<close> and \<^verbatim>\<open>"-300y"\<close>, whose result is the smallest duration,
  \<open>- 2 ^ 63\<close> nanoseconds (three hundred years are more nanoseconds than 64 bits hold),
  number conversions that know a few tokens, a canonical string over the keys \<^verbatim>\<open>host\<close> and \<^verbatim>\<open>key\<close>, every tag set valid,
  the conversion to \<^verbatim>\<open>int\<close> of amd64, and a backend that answers every request with the
  same response and whose state is the list of what it has read in the requests it was
  given, in the order of the calls.
\<close>

definition sampleParseDuration :: "string \<Rightarrow> string + Duration" where
  "sampleParseDuration s =
     (if s = ''1h'' then Inr 3600000000000
      else if s = ''2h'' then Inr 7200000000000
      else if s = ''0'' then Inr 0
      else if s = ''-300y'' then Inr (- (2 ^ 63))
      else Inl ''time: invalid duration'')"

definition sampleString :: "TagSet \<Rightarrow> string" where
  "sampleString tags =
     ''{'' @ (case tags ''host'' of None \<Rightarrow> '''' | Some v \<Rightarrow> ''host='' @ v)
          @ (if tags ''host'' \<noteq> None \<and> tags ''key'' \<noteq> None then '','' else '''')
          @ (case tags ''key'' of None \<Rightarrow> '''' | Some v \<Rightarrow> ''key='' @ v) @ ''}''"

definition sampleFloat64 :: "string \<Rightarrow> string + rat" where
  "sampleFloat64 s =
     (if s = ''1'' then Inr 1 else if s = ''2'' then Inr 2 else if s = ''2.5'' then Inr (5 / 2)
      else Inl ''invalid syntax'')"

definition sampleInt64 :: "string \<Rightarrow> string + 64 word" where
  "sampleInt64 s =
     (if s = ''10'' then Inr 10 else if s = ''20'' then Inr 20 else Inl ''invalid syntax'')"

definition sampleDeps :: "Response \<Rightarrow> (rat, Snapshot list) Deps" where
  "sampleDeps resp =
     \<lparr>ParseDuration = sampleParseDuration, Valid = (\<lambda>tags. True), String = sampleString,
      Float64 = sampleFloat64, Int64 = sampleInt64,
      Get = (\<lambda>c q. (Inr resp, Some ''http://graphite/render'', c @ [q])),
      OutOfRangeInt = (\<lambda>num. - (2 ^ 63))\<rparr>"

definition req0 :: Request where
  "req0 = \<lparr>Targets = [''q''], Start = None, End = None, URL = None\<rparr>"

definition e0 :: "Snapshot list State" where
  "e0 = \<lparr>Now = 0, GraphiteQueries = [], Cache = [], Mem = []\<rparr>"

definition resp0 :: Response where
  "resp0 = [\<lparr>Datapoints = [[''1'', ''10'']], Target = ''a''\<rparr>]"

section \<open>Properties\<close>

subsection \<open>Auxiliary facts\<close>

lemmas sample_simps = sampleDeps_def sampleString_def sampleFloat64_def sampleInt64_def
  sampleParseDuration_def req0_def e0_def

lemma sint_neg:
  fixes d :: "64 word"
  assumes "d \<noteq> - (2 ^ 63)"
  shows "sint (- d) = - sint d"
proof -
  have ge: "- (2 ^ 63) \<le> sint d" using sint_ge [of d] by simp
  have lt: "sint d < 2 ^ 63" using sint_lt [of d] by simp
  have "sint d \<noteq> - (2 ^ 63)"
  proof
    assume "sint d = - (2 ^ 63)"
    then have "word_of_int (sint d) = (word_of_int (- (2 ^ 63)) :: 64 word)" by simp
    then have "d = - (2 ^ 63)" by simp
    with assms show False by simp
  qed
  with ge have "- (2 ^ 63) < sint d" by simp
  with lt have "- (2 ^ 63) \<le> - sint d" "- sint d < 2 ^ 63" by simp_all
  then have "signed_take_bit 63 (- sint d) = - sint d"
    by (rule signed_take_bit_int_eq_self)
  then show ?thesis by (simp add: sint_word_ariths)
qed

lemma sint_neg_smallest: "sint (- (- (2 ^ 63)) :: 64 word) = - (2 ^ 63)"
  by simp

lemma map_neqI: "m k \<noteq> m' k \<Longrightarrow> m \<noteq> m'"
  by auto

lemma buildData_append:
  "buildData deps req (pre @ post) dps =
     (case buildData deps req pre dps of
        Inl err \<Rightarrow> Inl err
      | Inr m \<Rightarrow> buildData deps req post m)"
  by (induction pre arbitrary: dps) (auto split: sum.splits)

lemma setTags_dom:
  "n \<le> length formatTags \<Longrightarrow>
   dom (fold (\<lambda>i tags. let key = formatTags ! i in
               if length key > 0 then tags(key \<mapsto> nodes ! i) else tags) [0..<n] Map.empty)
     = {key \<in> set (take n formatTags). key \<noteq> ''''}"
proof (induction n)
  case 0
  then show ?case by simp
next
  case (Suc n)
  then have "take (Suc n) formatTags = take n formatTags @ [formatTags ! n]"
    by (simp add: take_Suc_conv_app_nth)
  with Suc show ?case by (auto simp: Let_def)
qed

lemma setTags_last:
  "n \<le> length formatTags \<Longrightarrow> i < n \<Longrightarrow> formatTags ! i \<noteq> '''' \<Longrightarrow>
   (\<forall>j. i < j \<and> j < n \<longrightarrow> formatTags ! j \<noteq> formatTags ! i) \<Longrightarrow>
   fold (\<lambda>i tags. let key = formatTags ! i in
               if length key > 0 then tags(key \<mapsto> nodes ! i) else tags) [0..<n] Map.empty
     (formatTags ! i) = Some (nodes ! i)"
proof (induction n)
  case 0
  then show ?case by simp
next
  case (Suc n)
  show ?case
  proof (cases "i = n")
    case True
    with Suc.prems show ?thesis by (simp add: Let_def)
  next
    case False
    with Suc.prems have i: "i < n" and ne: "formatTags ! n \<noteq> formatTags ! i" by auto
    from Suc.prems have "\<forall>j. i < j \<and> j < n \<longrightarrow> formatTags ! j \<noteq> formatTags ! i" by auto
    with Suc.IH Suc.prems i
    have "fold (\<lambda>i tags. let key = formatTags ! i in
               if length key > 0 then tags(key \<mapsto> nodes ! i) else tags) [0..<n] Map.empty
     (formatTags ! i) = Some (nodes ! i)" by simp
    with ne show ?thesis by (simp add: Let_def)
  qed
qed

text \<open>What a successful pass over one more series went through.\<close>

lemma parseSeries_Cons_Inr:
  assumes "parseSeries deps req formatTags (res # rest) seen results = Inr els"
  obtains tags dps where
    "buildTagSet req formatTags res = Inr tags" "Valid deps tags" "String deps tags \<notin> seen"
    "buildData deps req (Datapoints res) Map.empty = Inr dps"
    "parseSeries deps req formatTags rest (insert (String deps tags) seen)
          (results @ [\<lparr>Value = dps, Group = tags\<rparr>]) = Inr els"
proof (cases "buildTagSet req formatTags res")
  case (Inl a)
  with assms show ?thesis by simp
next
  case (Inr tags)
  note t = this
  show ?thesis
  proof (cases "buildData deps req (Datapoints res) Map.empty")
    case (Inl a)
    with assms t show ?thesis by (simp add: Let_def split: if_splits)
  next
    case (Inr dps)
    with assms t that [of tags dps] show ?thesis by (simp add: Let_def split: if_splits)
  qed
qed

lemma parseSeries_prefix:
  "parseSeries deps req formatTags s seen results = Inr els \<Longrightarrow>
     length els = length results + length s \<and> take (length results) els = results"
proof (induction s arbitrary: seen results)
  case Nil
  then show ?case by simp
next
  case (Cons res rest)
  from Cons.prems obtain tags dps where
    r: "parseSeries deps req formatTags rest (insert (String deps tags) seen)
          (results @ [\<lparr>Value = dps, Group = tags\<rparr>]) = Inr els"
    by (rule parseSeries_Cons_Inr)
  from Cons.IH [OF r] have len: "length els = Suc (length results) + length rest"
    and tk: "take (Suc (length results)) els = results @ [\<lparr>Value = dps, Group = tags\<rparr>]"
    by simp_all
  have "take (length results) (take (Suc (length results)) els) = results"
    unfolding tk by simp
  then have "take (length results) els = results" by simp
  with len show ?case by simp
qed

lemma parseSeries_nth:
  "parseSeries deps req formatTags s seen results = Inr els \<Longrightarrow> k < length s \<Longrightarrow>
     buildTagSet req formatTags (s ! k) = Inr (Group (els ! (length results + k))) \<and>
     Valid deps (Group (els ! (length results + k))) \<and>
     String deps (Group (els ! (length results + k))) \<notin> seen \<and>
     buildData deps req (Datapoints (s ! k)) Map.empty = Inr (Value (els ! (length results + k)))"
proof (induction s arbitrary: seen results k)
  case Nil
  then show ?case by simp
next
  case (Cons res rest)
  from Cons.prems(1) obtain tags dps where
    t: "buildTagSet req formatTags res = Inr tags" and
    v: "Valid deps tags" and
    n: "String deps tags \<notin> seen" and
    d: "buildData deps req (Datapoints res) Map.empty = Inr dps" and
    r: "parseSeries deps req formatTags rest (insert (String deps tags) seen)
          (results @ [\<lparr>Value = dps, Group = tags\<rparr>]) = Inr els"
    by (rule parseSeries_Cons_Inr)
  show ?case
  proof (cases k)
    case 0
    from parseSeries_prefix [OF r]
    have len: "length results < length els"
      and tk: "take (Suc (length results)) els = results @ [\<lparr>Value = dps, Group = tags\<rparr>]"
      by simp_all
    have "els ! length results = take (Suc (length results)) els ! length results"
      by simp
    then have "els ! length results = \<lparr>Value = dps, Group = tags\<rparr>"
      unfolding tk by simp
    with 0 t v n d show ?thesis by simp
  next
    case (Suc k')
    with Cons.prems(2) have "k' < length rest" by simp
    from Cons.IH [OF r this] Suc show ?thesis by simp
  qed
qed

lemma parseSeries_distinct:
  "parseSeries deps req formatTags s seen results = Inr els \<Longrightarrow> i < j \<Longrightarrow> j < length s \<Longrightarrow>
     String deps (Group (els ! (length results + i))) \<noteq>
     String deps (Group (els ! (length results + j)))"
proof (induction s arbitrary: seen results i j)
  case Nil
  then show ?case by simp
next
  case (Cons res rest)
  from Cons.prems(1) obtain tags dps where
    t: "buildTagSet req formatTags res = Inr tags" and
    r: "parseSeries deps req formatTags rest (insert (String deps tags) seen)
          (results @ [\<lparr>Value = dps, Group = tags\<rparr>]) = Inr els"
    by (rule parseSeries_Cons_Inr)
  from Cons.prems obtain j' where j: "j = Suc j'" "j' < length rest"
    by (cases j) auto
  show ?case
  proof (cases i)
    case 0
    from parseSeries_nth [OF Cons.prems(1), of 0] t
    have "Group (els ! length results) = tags" by simp
    moreover from parseSeries_nth [OF r j(2)]
    have "String deps (Group (els ! (Suc (length results) + j'))) \<noteq> String deps tags"
      by auto
    ultimately show ?thesis using 0 j by auto
  next
    case (Suc i')
    with Cons.prems j have "i' < j'" by simp
    from Cons.IH [OF r this j(2)] Suc j show ?thesis by simp
  qed
qed

text \<open>
  After series that decode, a series whose canonical string was seen, or is that of one
  of them, ends the pass with the duplicate error.
\<close>

lemma parseSeries_duplicate:
  assumes "buildTagSet req formatTags res = Inr tags" and "Valid deps tags"
  shows "parseSeries deps req formatTags pre seen results = Inr els \<Longrightarrow>
     String deps tags \<in> seen \<or>
       (\<exists>k<length pre. String deps (Group (els ! (length results + k))) = String deps tags) \<Longrightarrow>
     parseSeries deps req formatTags (pre @ res # post) seen results =
       Inl (ParseError (URL req) (DuplicateTagset (String deps tags)))"
proof (induction pre arbitrary: seen results)
  case Nil
  with assms show ?case by simp
next
  case (Cons x pre)
  from Cons.prems(1) obtain tx dx where
    t: "buildTagSet req formatTags x = Inr tx" and
    v: "Valid deps tx" and
    n: "String deps tx \<notin> seen" and
    d: "buildData deps req (Datapoints x) Map.empty = Inr dx" and
    r: "parseSeries deps req formatTags pre (insert (String deps tx) seen)
          (results @ [\<lparr>Value = dx, Group = tx\<rparr>]) = Inr els"
    by (rule parseSeries_Cons_Inr)
  from parseSeries_nth [OF Cons.prems(1), of 0] t
  have g0: "Group (els ! length results) = tx" by simp
  have "String deps tags \<in> insert (String deps tx) seen \<or>
       (\<exists>k<length pre.
          String deps (Group (els ! (length (results @ [\<lparr>Value = dx, Group = tx\<rparr>]) + k)))
           = String deps tags)"
  proof -
    from Cons.prems(2) consider "String deps tags \<in> seen"
      | k where "k < length (x # pre)"
          "String deps (Group (els ! (length results + k))) = String deps tags"
      by blast
    then show ?thesis
    proof cases
      case 1
      then show ?thesis by simp
    next
      case 2
      show ?thesis
      proof (cases k)
        case 0
        with 2 g0 show ?thesis by simp
      next
        case (Suc k')
        with 2 have "k' < length pre"
          "String deps (Group (els ! (length (results @ [\<lparr>Value = dx, Group = tx\<rparr>]) + k')))
             = String deps tags"
          by simp_all
        then show ?thesis by blast
      qed
    qed
  qed
  from Cons.IH [OF r this] t v n d show ?case by simp
qed

lemma map_add_idem: "m ++ m = m"
  by (simp add: map_add_def fun_eq_iff split: option.split)

text \<open>A successful decode has one element for each series, in the order of the series.\<close>

lemma parseGraphiteResponse_Inr:
  assumes "parseGraphiteResponse deps req s formatTags = Inr els"
  shows "length els = length s"
    and "k < length s \<Longrightarrow> buildTagSet req formatTags (s ! k) = Inr (Group (els ! k))"
    and "k < length s \<Longrightarrow> Valid deps (Group (els ! k))"
    and "k < length s \<Longrightarrow>
           buildData deps req (Datapoints (s ! k)) Map.empty = Inr (Value (els ! k))"
proof -
  from assms have p: "parseSeries deps req formatTags s {} [] = Inr els"
    by (simp add: parseGraphiteResponse_def split: if_splits)
  from parseSeries_prefix [OF p] show "length els = length s" by simp
  { assume k: "k < length s"
    from parseSeries_nth [OF p k]
    show "buildTagSet req formatTags (s ! k) = Inr (Group (els ! k))"
      and "Valid deps (Group (els ! k))"
      and "buildData deps req (Datapoints (s ! k)) Map.empty = Inr (Value (els ! k))"
      by simp_all }
qed

text \<open>Every failure of the decoder is a decode error that carries the request's URL.\<close>

lemma buildTagSet_Inl:
  "buildTagSet req formatTags res = Inl err \<Longrightarrow> \<exists>c. err = ParseError (URL req) c"
  by (auto simp: buildTagSet_def Let_def split: if_splits)

lemma buildData_Inl:
  "buildData deps req dps0 dps = Inl err \<Longrightarrow> \<exists>c. err = ParseError (URL req) c"
proof (induction dps0 arbitrary: dps)
  case Nil
  then show ?case by simp
next
  case (Cons dp rest)
  show ?case
  proof (cases "length dp \<noteq> 2")
    case True
    with Cons.prems show ?thesis by auto
  next
    case False
    note len = this
    show ?thesis
    proof (cases "length (dp ! 0) = 0")
      case True
      with len Cons.prems have "buildData deps req rest dps = Inl err" by simp
      then show ?thesis by (rule Cons.IH)
    next
      case False
      note ne = this
      show ?thesis
      proof (cases "Float64 deps (dp ! 0)")
        case (Inl x)
        with len ne Cons.prems show ?thesis by auto
      next
        case (Inr val)
        note v = this
        show ?thesis
        proof (cases "Int64 deps (dp ! 1)")
          case (Inl x)
          with len ne v Cons.prems show ?thesis by auto
        next
          case (Inr unixTS)
          with len ne v Cons.prems
          have "buildData deps req rest (dps(Unix unixTS 0 \<mapsto> val)) = Inl err" by simp
          then show ?thesis by (rule Cons.IH)
        qed
      qed
    qed
  qed
qed

lemma parseSeries_Inl:
  "parseSeries deps req formatTags s seen results = Inl err \<Longrightarrow>
     \<exists>c. err = ParseError (URL req) c"
proof (induction s arbitrary: seen results)
  case Nil
  then show ?case by simp
next
  case (Cons res rest)
  show ?case
  proof (cases "buildTagSet req formatTags res")
    case (Inl x)
    with Cons.prems have "buildTagSet req formatTags res = Inl err" by simp
    then show ?thesis by (rule buildTagSet_Inl)
  next
    case (Inr tags)
    note t = this
    show ?thesis
    proof (cases "Valid deps tags \<and> String deps tags \<notin> seen")
      case False
      with t Cons.prems show ?thesis by (auto simp: Let_def split: if_splits)
    next
      case True
      note ok = this
      show ?thesis
      proof (cases "buildData deps req (Datapoints res) Map.empty")
        case (Inl x)
        with t ok Cons.prems
        have "buildData deps req (Datapoints res) Map.empty = Inl err"
          by (simp add: Let_def)
        then show ?thesis by (rule buildData_Inl)
      next
        case (Inr dps)
        with t ok Cons.prems
        have "parseSeries deps req formatTags rest (insert (String deps tags) seen)
           (results @ [\<lparr>Value = dps, Group = tags\<rparr>]) = Inl err"
          by (simp add: Let_def)
        then show ?thesis by (rule Cons.IH)
      qed
    qed
  qed
qed

lemma parseGraphiteResponse_Inl:
  "parseGraphiteResponse deps req s formatTags = Inl err \<Longrightarrow>
     \<exists>c. err = ParseError (URL req) c"
  by (auto simp: parseGraphiteResponse_def split: if_splits dest: parseSeries_Inl)

subsection \<open>Facts about the window loop\<close>

declare bandLoop.simps [simp del]

lemma load_queries:
  "load (e\<lparr>GraphiteQueries := qs\<rparr>) = load e"
  by (rule ext) (simp add: load_def)

lemma snapshot_queries [simp]:
  "snapshot (e\<lparr>GraphiteQueries := qs\<rparr>) req = snapshot e req"
  by (simp add: snapshot_def load_queries)

lemma timeRequest_effect:
  assumes "timeRequest deps e req = (resp, req', e')"
  shows "GraphiteQueries e' = GraphiteQueries e @ [req]" and "Now e' = Now e"
    and "Mem e' = Mem e"
    and "Targets req' = Targets req" and "Start req' = Start req" and "End req' = End req"
    and "(resp, URL req', Cache e') = Get deps (Cache e) (snapshot e req)"
  using assms by (auto simp: timeRequest_def Let_def split: prod.splits)

text \<open>
  The window built from a state in which the variable \<open>now\<close> exists: what a reader of
  the request finds, and what has changed in the state.
\<close>

lemma nextWindow_effect:
  assumes "now < length (Mem e)" and "nextWindow e d p now req = (req2, e2)"
  shows "snapshot e2 req2 =
           \<lparr>snapTargets = Targets req,
            snapStart = Some (Add (Add (load e now) (- p)) (- d)),
            snapEnd = Some (Add (load e now) (- p)), snapURL = URL req\<rparr>"
    and "load e2 now = Add (load e now) (- p)"
    and "length (Mem e2) = Suc (length (Mem e))"
    and "GraphiteQueries e2 = GraphiteQueries e" and "Cache e2 = Cache e"
    and "Now e2 = Now e"
    and "Targets req2 = Targets req" and "URL req2 = URL req"
    and "End req2 = Some now" and "Start req2 = Some (length (Mem e))"
  using assms
  by (auto simp: nextWindow_def Let_def alloc_def store_def load_def snapshot_def nth_append)

lemma bandLoop_done:
  "n \<le> i \<Longrightarrow> bandLoop deps d p format n i now req r err e = (err, r, e)"
  by (simp add: bandLoop.simps)

text \<open>One window of the loop: the request it issues and how the loop goes on.\<close>

lemma bandLoop_step:
  assumes "i < n"
    and "nextWindow e d p now req = (req2, e2)"
    and "timeRequest deps e2 req2 = (resp, req3, e3)"
  shows "bandLoop deps d p format n i now req r err e =
     (case resp of
        Inl err1 \<Rightarrow> (Some (Foreign err1), r, e3)
      | Inr s \<Rightarrow>
         (case parseGraphiteResponse deps req3 s (Split format CHR ''.'') of
            Inl err1 \<Rightarrow> (Some err1, r, e3)
          | Inr results \<Rightarrow>
              bandLoop deps d p format n (i + 1) now req3
                (if i = 0 then r\<lparr>Elements := results\<rparr> else foldl mergeResult r results)
                None e3))"
  using assms by (subst bandLoop.simps) (simp add: Let_def split: sum.splits)

text \<open>
  What cache and backend read in the requests of the loop, from window \<open>i\<close> on. The
  record \<open>trace\<close> is any that they keep of what they read, call after call. Each window
  ends one period before the one before it, the first one period before the value of
  \<^verbatim>\<open>now\<close>. The loop issues all of them when it ends without error, and records one
  request for each.
\<close>

lemma bandLoop_windows:
  assumes obs: "\<forall>c q. trace (snd (snd (Get deps c q))) = trace c @ [q]"
  shows "now < length (Mem e) \<Longrightarrow>
   bandLoop deps d p format n i now req r err e = (err', r', e') \<Longrightarrow>
   \<exists>ws. trace (Cache e') = trace (Cache e) @ ws \<and>
     length ws \<le> nat (n - i) \<and>
     (\<forall>j<length ws.
        snapEnd (ws ! j) = Some (load e now + (int j + 1) * sint (- p)) \<and>
        snapStart (ws ! j) = Some (load e now + (int j + 1) * sint (- p) + sint (- d)) \<and>
        snapTargets (ws ! j) = Targets req) \<and>
     (err' = None \<and> i < n \<longrightarrow> length ws = nat (n - i)) \<and>
     length (GraphiteQueries e') = length (GraphiteQueries e) + length ws"
proof (induction "nat (n - i)" arbitrary: i req r err e)
  case 0
  then have "n \<le> i" by simp
  with 0 bandLoop_done [OF this, of deps d p format now req r err e]
  show ?case by simp
next
  case (Suc k)
  then have lt: "i < n" and k: "k = nat (n - (i + 1))" by simp_all
  obtain req2 e2 where nw: "nextWindow e d p now req = (req2, e2)"
    by (cases "nextWindow e d p now req") auto
  note win = nextWindow_effect [OF Suc.prems(1) nw]
  obtain resp req3 e3 where tr: "timeRequest deps e2 req2 = (resp, req3, e3)"
    by (cases "timeRequest deps e2 req2") auto
  note eff = timeRequest_effect [OF tr]
  note step = bandLoop_step [OF lt nw tr, of format r err]
  let ?w = "snapshot e2 req2"
  have "trace (Cache e3) = trace (snd (snd (Get deps (Cache e2) ?w)))"
    using eff(7) [symmetric] by simp
  with obs win(5) have lg: "trace (Cache e3) = trace (Cache e) @ [?w]" by simp
  have gq: "length (GraphiteQueries e3) = length (GraphiteQueries e) + 1"
    using eff(1) win(4) by simp
  have now3: "now < length (Mem e3)" using eff(3) win(3) Suc.prems(1) by simp
  have ld3: "load e3 now = Add (load e now) (- p)"
    using eff(3) win(2) by (simp add: load_def)
  have w0: "snapEnd ?w = Some (load e now + (int 0 + 1) * sint (- p)) \<and>
        snapStart ?w = Some (load e now + (int 0 + 1) * sint (- p) + sint (- d)) \<and>
        snapTargets ?w = Targets req"
    unfolding win(1) by (simp add: Add_def)
  have one: "trace (Cache e3) = trace (Cache e) @ [?w] \<and>
     length [?w] \<le> nat (n - i) \<and>
     (\<forall>j<length [?w].
        snapEnd ([?w] ! j) = Some (load e now + (int j + 1) * sint (- p)) \<and>
        snapStart ([?w] ! j) = Some (load e now + (int j + 1) * sint (- p) + sint (- d)) \<and>
        snapTargets ([?w] ! j) = Targets req) \<and>
     length (GraphiteQueries e3) = length (GraphiteQueries e) + length [?w]"
    using lg lt w0 gq by simp
  have stop: "e' = e3 \<Longrightarrow> err' \<noteq> None \<Longrightarrow> ?case"
  proof -
    assume ee: "e' = e3" "err' \<noteq> None"
    show ?case
    proof (intro exI [of _ "[?w]"] conjI)
      show "trace (Cache e') = trace (Cache e) @ [?w]" using one ee by simp
      show "length [?w] \<le> nat (n - i)" using lt by simp
      show "\<forall>j<length [?w].
        snapEnd ([?w] ! j) = Some (load e now + (int j + 1) * sint (- p)) \<and>
        snapStart ([?w] ! j) = Some (load e now + (int j + 1) * sint (- p) + sint (- d)) \<and>
        snapTargets ([?w] ! j) = Targets req" using w0 by simp
      show "err' = None \<and> i < n \<longrightarrow> length [?w] = nat (n - i)" using ee by auto
      show "length (GraphiteQueries e') = length (GraphiteQueries e) + length [?w]"
        using gq ee by simp
    qed
  qed
  show ?case
  proof (cases resp)
    case (Inl err1)
    with step Suc.prems(2) have "e' = e3" "err' \<noteq> None" by simp_all
    then show ?thesis by (rule stop)
  next
    case (Inr s)
    note s = this
    show ?thesis
    proof (cases "parseGraphiteResponse deps req3 s (Split format CHR ''.'')")
      case (Inl err1)
      with step s Suc.prems(2) have "e' = e3" "err' \<noteq> None" by simp_all
      then show ?thesis by (rule stop)
    next
      case (Inr results)
      let ?r1 = "if i = 0 then r\<lparr>Elements := results\<rparr> else foldl mergeResult r results"
      from step s Inr Suc.prems(2)
      have rec: "bandLoop deps d p format n (i + 1) now req3 ?r1 None e3 = (err', r', e')"
        by simp
      from Suc.hyps(1) [OF k now3 rec] obtain ws where
        R: "trace (Cache e') = trace (Cache e3) @ ws \<and>
           length ws \<le> nat (n - (i + 1)) \<and>
           (\<forall>j<length ws.
              snapEnd (ws ! j) = Some (load e3 now + (int j + 1) * sint (- p)) \<and>
              snapStart (ws ! j) =
                Some (load e3 now + (int j + 1) * sint (- p) + sint (- d)) \<and>
              snapTargets (ws ! j) = Targets req3) \<and>
           (err' = None \<and> i + 1 < n \<longrightarrow> length ws = nat (n - (i + 1))) \<and>
           length (GraphiteQueries e') = length (GraphiteQueries e3) + length ws" ..
      note q = R [THEN conjunct1]
      note l = R [THEN conjunct2, THEN conjunct1]
      note w = R [THEN conjunct2, THEN conjunct2, THEN conjunct1]
      note a = R [THEN conjunct2, THEN conjunct2, THEN conjunct2, THEN conjunct1]
      note g = R [THEN conjunct2, THEN conjunct2, THEN conjunct2, THEN conjunct2]
      have t3: "Targets req3 = Targets req" using eff(4) win(7) by simp
      have f1: "trace (Cache e') = trace (Cache e) @ (?w # ws)" using q lg by simp
      have f2: "length (?w # ws) \<le> nat (n - i)" using l lt by simp
      have f3: "\<forall>j<length (?w # ws).
        snapEnd ((?w # ws) ! j) = Some (load e now + (int j + 1) * sint (- p)) \<and>
        snapStart ((?w # ws) ! j) =
          Some (load e now + (int j + 1) * sint (- p) + sint (- d)) \<and>
        snapTargets ((?w # ws) ! j) = Targets req"
      proof (intro allI impI)
        fix j assume j: "j < length (?w # ws)"
        show "snapEnd ((?w # ws) ! j) = Some (load e now + (int j + 1) * sint (- p)) \<and>
          snapStart ((?w # ws) ! j) =
            Some (load e now + (int j + 1) * sint (- p) + sint (- d)) \<and>
          snapTargets ((?w # ws) ! j) = Targets req"
        proof (cases j)
          case 0
          with w0 show ?thesis by simp
        next
          case (Suc j')
          with j have "j' < length ws" by simp
          with w have "snapEnd (ws ! j') = Some (load e3 now + (int j' + 1) * sint (- p))"
            "snapStart (ws ! j') =
               Some (load e3 now + (int j' + 1) * sint (- p) + sint (- d))"
            "snapTargets (ws ! j') = Targets req3" by simp_all
          with Suc t3 ld3 show ?thesis by (simp add: Add_def algebra_simps)
        qed
      qed
      have f4: "err' = None \<and> i < n \<longrightarrow> length (?w # ws) = nat (n - i)"
      proof (cases "i + 1 < n")
        case True
        with a lt show ?thesis by auto
      next
        case False
        with l lt show ?thesis by auto
      qed
      have f5: "length (GraphiteQueries e') = length (GraphiteQueries e) + length (?w # ws)"
        using g gq by simp
      show ?thesis
      proof (intro exI [of _ "?w # ws"] conjI)
        show "trace (Cache e') = trace (Cache e) @ (?w # ws)" by (rule f1)
        show "length (?w # ws) \<le> nat (n - i)" by (rule f2)
        show "\<forall>j<length (?w # ws).
          snapEnd ((?w # ws) ! j) = Some (load e now + (int j + 1) * sint (- p)) \<and>
          snapStart ((?w # ws) ! j) =
            Some (load e now + (int j + 1) * sint (- p) + sint (- d)) \<and>
          snapTargets ((?w # ws) ! j) = Targets req" by (rule f3)
        show "err' = None \<and> i < n \<longrightarrow> length (?w # ws) = nat (n - i)" by (rule f4)
        show "length (GraphiteQueries e') = length (GraphiteQueries e) + length (?w # ws)"
          by (rule f5)
      qed
    qed
  qed
qed

lemma mergeResult_flags:
  "IgnoreUnjoined (mergeResult r result) = IgnoreUnjoined r \<and>
   IgnoreOtherUnjoined (mergeResult r result) = IgnoreOtherUnjoined r"
  by (simp add: mergeResult_def Append_def Let_def split: option.splits)

lemma foldl_mergeResult_flags:
  "IgnoreUnjoined (foldl mergeResult r results) = IgnoreUnjoined r \<and>
   IgnoreOtherUnjoined (foldl mergeResult r results) = IgnoreOtherUnjoined r"
  by (induction results arbitrary: r) (simp_all add: mergeResult_flags)


lemma bandLoop_flags:
  "bandLoop deps d p format n i now req r err e = (err', r', e') \<Longrightarrow>
   IgnoreUnjoined r' = IgnoreUnjoined r \<and> IgnoreOtherUnjoined r' = IgnoreOtherUnjoined r"
proof (induction "nat (n - i)" arbitrary: i req r err e)
  case 0
  then have "n \<le> i" by simp
  with 0 bandLoop_done [OF this, of deps d p format now req r err e]
  show ?case by simp
next
  case (Suc k)
  then have lt: "i < n" and k: "k = nat (n - (i + 1))" by simp_all
  obtain req2 e2 where nw: "nextWindow e d p now req = (req2, e2)"
    by (cases "nextWindow e d p now req") auto
  obtain resp req3 e3 where tr: "timeRequest deps e2 req2 = (resp, req3, e3)"
    by (cases "timeRequest deps e2 req2") auto
  note step = bandLoop_step [OF lt nw tr, of format r err]
  show ?case
  proof (cases resp)
    case (Inl err1)
    with step Suc.prems show ?thesis by simp
  next
    case (Inr s)
    note s = this
    show ?thesis
    proof (cases "parseGraphiteResponse deps req3 s (Split format CHR ''.'')")
      case (Inl err1)
      with step s Suc.prems show ?thesis by simp
    next
      case (Inr results)
      let ?r1 = "if i = 0 then r\<lparr>Elements := results\<rparr> else foldl mergeResult r results"
      from step s Inr Suc.prems
      have rec: "bandLoop deps d p format n (i + 1) now req3 ?r1 None e3 = (err', r', e')"
        by simp
      from Suc.hyps(1) [OF k rec]
      have "IgnoreUnjoined r' = IgnoreUnjoined ?r1 \<and>
            IgnoreOtherUnjoined r' = IgnoreOtherUnjoined ?r1" .
      then show ?thesis by (simp add: foldl_mergeResult_flags)
    qed
  qed
qed

text \<open>
  \<^verbatim>\<open>Band\<close> once both durations are parsed: the loop from window 0, in the state that
  holds the variables \<^verbatim>\<open>now\<close> and \<^verbatim>\<open>st\<close> of before the loop.
\<close>

lemma Band_parsed:
  assumes "ParseDuration deps duration = Inr d" and "ParseDuration deps period = Inr p"
    and "bandLoop deps d p format (toInt deps num) 0 (length (Mem e))
           \<lparr>Targets = [query], Start = Some (Suc (length (Mem e))),
            End = Some (length (Mem e)), URL = None\<rparr>
           \<lparr>Elements = [], IgnoreUnjoined = True, IgnoreOtherUnjoined = True\<rparr>
           (if flt num 1 \<or> fgt num 100 then Some NumOutOfBounds else None)
           (e\<lparr>Mem := Mem e @ [Now e, Add (Now e) (- d)]\<rparr>) = (err', r', e')"
  shows "Band deps e query duration period format num =
     (case err' of Some err1 \<Rightarrow> (Inl (GraphiteBand err1), e') | None \<Rightarrow> (Inr r', e'))"
  using assms by (simp add: Band_def Let_def alloc_def load_def)

text \<open>
  What cache and backend read in the requests of a call of \<^verbatim>\<open>Band\<close>, once both
  durations are parsed: window \<open>j\<close> ends \<open>j + 1\<close> periods before \<open>now\<close>, and all windows
  are issued when the call succeeds.
\<close>

lemma Band_issued:
  assumes "ParseDuration deps duration = Inr d" and "ParseDuration deps period = Inr p"
    and obs: "\<forall>c q. trace (snd (snd (Get deps c q))) = trace c @ [q]"
    and "Band deps e query duration period format num = (res, e')"
  shows "\<exists>ws. trace (Cache e') = trace (Cache e) @ ws \<and>
     length ws \<le> nat (toInt deps num) \<and>
     ((\<exists>r. res = Inr r) \<longrightarrow> length ws = nat (toInt deps num)) \<and>
     (\<forall>j<length ws.
        snapEnd (ws ! j) = Some (Now e + (int j + 1) * sint (- p)) \<and>
        snapStart (ws ! j) = Some (Now e + (int j + 1) * sint (- p) + sint (- d)) \<and>
        snapTargets (ws ! j) = [query]) \<and>
     length (GraphiteQueries e') = length (GraphiteQueries e) + length ws"
proof -
  let ?err0 = "if flt num 1 \<or> fgt num 100 then Some NumOutOfBounds else None"
  let ?now = "length (Mem e)"
  let ?req = "\<lparr>Targets = [query], Start = Some (Suc ?now), End = Some ?now, URL = None\<rparr>"
  let ?r0 = "\<lparr>Elements = [], IgnoreUnjoined = True, IgnoreOtherUnjoined = True\<rparr>"
  let ?e2 = "e\<lparr>Mem := Mem e @ [Now e, Add (Now e) (- d)]\<rparr>"
  let ?n = "toInt deps num"
  obtain err' r' e'' where
    loop: "bandLoop deps d p format ?n 0 ?now ?req ?r0 ?err0 ?e2 = (err', r', e'')"
    by (cases "bandLoop deps d p format ?n 0 ?now ?req ?r0 ?err0 ?e2") auto
  from Band_parsed [OF assms(1,2) loop] assms(4)
  have res: "(res, e') = (case err' of Some err1 \<Rightarrow> (Inl (GraphiteBand err1), e'')
                        | None \<Rightarrow> (Inr r', e''))"
    by simp
  then have e': "e' = e''" by (cases err') simp_all
  from res have ok: "(\<exists>r. res = Inr r) \<longrightarrow> err' = None" by (cases err') auto
  have in_mem: "?now < length (Mem ?e2)" by simp
  have ld: "load ?e2 ?now = Now e" by (simp add: load_def)
  from bandLoop_windows [OF obs in_mem loop] obtain ws where
    R: "trace (Cache e'') = trace (Cache ?e2) @ ws \<and>
     length ws \<le> nat (?n - 0) \<and>
     (\<forall>j<length ws.
        snapEnd (ws ! j) = Some (load ?e2 ?now + (int j + 1) * sint (- p)) \<and>
        snapStart (ws ! j) = Some (load ?e2 ?now + (int j + 1) * sint (- p) + sint (- d)) \<and>
        snapTargets (ws ! j) = Targets ?req) \<and>
     (err' = None \<and> 0 < ?n \<longrightarrow> length ws = nat (?n - 0)) \<and>
     length (GraphiteQueries e'') = length (GraphiteQueries ?e2) + length ws" ..
  note q = R [THEN conjunct1]
  note l = R [THEN conjunct2, THEN conjunct1]
  note w = R [THEN conjunct2, THEN conjunct2, THEN conjunct1]
  note a = R [THEN conjunct2, THEN conjunct2, THEN conjunct2, THEN conjunct1]
  note g = R [THEN conjunct2, THEN conjunct2, THEN conjunct2, THEN conjunct2]
  have all: "(\<exists>r. res = Inr r) \<longrightarrow> length ws = nat ?n"
  proof
    assume "\<exists>r. res = Inr r"
    with ok have n: "err' = None" by simp
    show "length ws = nat ?n"
    proof (cases "0 < ?n")
      case True
      with a n show ?thesis by simp
    next
      case False
      with l show ?thesis by simp
    qed
  qed
  show ?thesis
  proof (intro exI [of _ ws] conjI)
    show "trace (Cache e') = trace (Cache e) @ ws" using q e' by simp
    show "length ws \<le> nat ?n" using l by simp
    show "(\<exists>r. res = Inr r) \<longrightarrow> length ws = nat ?n" by (rule all)
    show "\<forall>j<length ws.
        snapEnd (ws ! j) = Some (Now e + (int j + 1) * sint (- p)) \<and>
        snapStart (ws ! j) = Some (Now e + (int j + 1) * sint (- p) + sint (- d)) \<and>
        snapTargets (ws ! j) = [query]"
      using w unfolding ld by simp
    show "length (GraphiteQueries e') = length (GraphiteQueries e) + length ws"
      using g e' by simp
  qed
qed


text \<open>
  The requests the loop records, read when the loop has ended: every one points with
  \<^verbatim>\<open>End\<close> at the variable \<^verbatim>\<open>now\<close>, so all of them show the end instant of the last
  window, and each points with \<^verbatim>\<open>Start\<close> at a variable of its own, which keeps the
  start instant of its window.
\<close>

lemma nextWindow_mem:
  assumes "now < length (Mem e)" and "nextWindow e d p now req = (req2, e2)"
  shows "Mem e2 = (Mem e)[now := Add (load e now) (- p)] @
                    [Add (Add (load e now) (- p)) (- d)]"
  using assms
  by (auto simp: nextWindow_def Let_def alloc_def store_def load_def)

lemma bandLoop_recorded:
  "now < length (Mem e) \<Longrightarrow>
   bandLoop deps d p format n i now req r err e = (err', r', e') \<Longrightarrow>
   \<exists>reqs. GraphiteQueries e' = GraphiteQueries e @ reqs \<and>
     length (Mem e') = length (Mem e) + length reqs \<and>
     load e' now = load e now + int (length reqs) * sint (- p) \<and>
     (\<forall>a<length (Mem e). a \<noteq> now \<longrightarrow> load e' a = load e a) \<and>
     (\<forall>j<length reqs.
        End (reqs ! j) = Some now \<and> Start (reqs ! j) = Some (length (Mem e) + j) \<and>
        load e' (length (Mem e) + j) =
          load e now + (int j + 1) * sint (- p) + sint (- d))"
proof (induction "nat (n - i)" arbitrary: i req r err e)
  case 0
  then have "n \<le> i" by simp
  with 0 bandLoop_done [OF this, of deps d p format now req r err e]
  show ?case by simp
next
  case (Suc k)
  then have lt: "i < n" and k: "k = nat (n - (i + 1))" by simp_all
  obtain req2 e2 where nw: "nextWindow e d p now req = (req2, e2)"
    by (cases "nextWindow e d p now req") auto
  note win = nextWindow_effect [OF Suc.prems(1) nw]
  note mem = nextWindow_mem [OF Suc.prems(1) nw]
  obtain resp req3 e3 where tr: "timeRequest deps e2 req2 = (resp, req3, e3)"
    by (cases "timeRequest deps e2 req2") auto
  note eff = timeRequest_effect [OF tr]
  note step = bandLoop_step [OF lt nw tr, of format r err]
  let ?m = "length (Mem e)"
  have gq: "GraphiteQueries e3 = GraphiteQueries e @ [req2]" using eff(1) win(4) by simp
  have m3: "Mem e3 = (Mem e)[now := Add (load e now) (- p)] @
                       [Add (Add (load e now) (- p)) (- d)]"
    using eff(3) mem by simp
  have len3: "length (Mem e3) = Suc ?m" using m3 by simp
  have now3: "now < length (Mem e3)" using len3 Suc.prems(1) by simp
  have ld3: "load e3 now = load e now + sint (- p)"
    using m3 Suc.prems(1) by (simp add: load_def nth_append Add_def)
  have st3: "load e3 ?m = load e now + sint (- p) + sint (- d)"
    using m3 by (simp add: load_def nth_append Add_def)
  have fr3: "\<forall>a<?m. a \<noteq> now \<longrightarrow> load e3 a = load e a"
    using m3 by (simp add: load_def nth_append)
  have stop: "e' = e3 \<Longrightarrow> ?case"
  proof -
    assume ee: "e' = e3"
    show ?case
    proof (intro exI [of _ "[req2]"] conjI)
      show "GraphiteQueries e' = GraphiteQueries e @ [req2]" using gq ee by simp
      show "length (Mem e') = ?m + length [req2]" using len3 ee by simp
      show "load e' now = load e now + int (length [req2]) * sint (- p)"
        using ld3 ee by simp
      show "\<forall>a<?m. a \<noteq> now \<longrightarrow> load e' a = load e a" using fr3 ee by simp
      show "\<forall>j<length [req2].
        End ([req2] ! j) = Some now \<and> Start ([req2] ! j) = Some (?m + j) \<and>
        load e' (?m + j) = load e now + (int j + 1) * sint (- p) + sint (- d)"
        using win(9,10) st3 ee by simp
    qed
  qed
  show ?case
  proof (cases resp)
    case (Inl err1)
    with step Suc.prems(2) have "e' = e3" by simp
    then show ?thesis by (rule stop)
  next
    case (Inr s)
    note s = this
    show ?thesis
    proof (cases "parseGraphiteResponse deps req3 s (Split format CHR ''.'')")
      case (Inl err1)
      with step s Suc.prems(2) have "e' = e3" by simp
      then show ?thesis by (rule stop)
    next
      case (Inr results)
      let ?r1 = "if i = 0 then r\<lparr>Elements := results\<rparr> else foldl mergeResult r results"
      from step s Inr Suc.prems(2)
      have rec: "bandLoop deps d p format n (i + 1) now req3 ?r1 None e3 = (err', r', e')"
        by simp
      from Suc.hyps(1) [OF k now3 rec] obtain reqs where
        R: "GraphiteQueries e' = GraphiteQueries e3 @ reqs \<and>
           length (Mem e') = length (Mem e3) + length reqs \<and>
           load e' now = load e3 now + int (length reqs) * sint (- p) \<and>
           (\<forall>a<length (Mem e3). a \<noteq> now \<longrightarrow> load e' a = load e3 a) \<and>
           (\<forall>j<length reqs.
              End (reqs ! j) = Some now \<and> Start (reqs ! j) = Some (length (Mem e3) + j) \<and>
              load e' (length (Mem e3) + j) =
                load e3 now + (int j + 1) * sint (- p) + sint (- d))" ..
      note q = R [THEN conjunct1]
      note l = R [THEN conjunct2, THEN conjunct1]
      note n = R [THEN conjunct2, THEN conjunct2, THEN conjunct1]
      note f = R [THEN conjunct2, THEN conjunct2, THEN conjunct2, THEN conjunct1]
      note w = R [THEN conjunct2, THEN conjunct2, THEN conjunct2, THEN conjunct2]
      have ne: "?m \<noteq> now" using Suc.prems(1) by simp
      have keep: "load e' ?m = load e3 ?m" using f len3 ne by simp
      have f1: "GraphiteQueries e' = GraphiteQueries e @ (req2 # reqs)" using q gq by simp
      have f2: "length (Mem e') = ?m + length (req2 # reqs)" using l len3 by simp
      have f3: "load e' now = load e now + int (length (req2 # reqs)) * sint (- p)"
        using n ld3 by (simp add: algebra_simps)
      have f4: "\<forall>a<?m. a \<noteq> now \<longrightarrow> load e' a = load e a"
      proof (intro allI impI)
        fix a assume a: "a < ?m" "a \<noteq> now"
        then have "a < length (Mem e3)" using len3 by simp
        with f a have "load e' a = load e3 a" by simp
        with fr3 a show "load e' a = load e a" by simp
      qed
      have f5: "\<forall>j<length (req2 # reqs).
        End ((req2 # reqs) ! j) = Some now \<and> Start ((req2 # reqs) ! j) = Some (?m + j) \<and>
        load e' (?m + j) = load e now + (int j + 1) * sint (- p) + sint (- d)"
      proof (intro allI impI)
        fix j assume j: "j < length (req2 # reqs)"
        show "End ((req2 # reqs) ! j) = Some now \<and>
          Start ((req2 # reqs) ! j) = Some (?m + j) \<and>
          load e' (?m + j) = load e now + (int j + 1) * sint (- p) + sint (- d)"
        proof (cases j)
          case 0
          with win(9,10) keep st3 show ?thesis by simp
        next
          case (Suc j')
          with j have "j' < length reqs" by simp
          with w have "End (reqs ! j') = Some now"
            "Start (reqs ! j') = Some (length (Mem e3) + j')"
            "load e' (length (Mem e3) + j') =
               load e3 now + (int j' + 1) * sint (- p) + sint (- d)" by simp_all
          with Suc len3 ld3 show ?thesis by (simp add: algebra_simps)
        qed
      qed
      show ?thesis
      proof (intro exI [of _ "req2 # reqs"] conjI)
        show "GraphiteQueries e' = GraphiteQueries e @ (req2 # reqs)" by (rule f1)
        show "length (Mem e') = ?m + length (req2 # reqs)" by (rule f2)
        show "load e' now = load e now + int (length (req2 # reqs)) * sint (- p)"
          by (rule f3)
        show "\<forall>a<?m. a \<noteq> now \<longrightarrow> load e' a = load e a" by (rule f4)
        show "\<forall>j<length (req2 # reqs).
          End ((req2 # reqs) ! j) = Some now \<and> Start ((req2 # reqs) ! j) = Some (?m + j) \<and>
          load e' (?m + j) = load e now + (int j + 1) * sint (- p) + sint (- d)"
          by (rule f5)
      qed
    qed
  qed
qed

text \<open>
  The requests that a call of \<^verbatim>\<open>Band\<close> has recorded, read after the call: request \<open>j\<close>
  shows the start instant of window \<open>j\<close>, and every request shows the end instant of
  the last window.
\<close>

lemma Band_recorded:
  assumes "ParseDuration deps duration = Inr d" and "ParseDuration deps period = Inr p"
    and "Band deps e query duration period format num = (res, e')"
  shows "\<exists>reqs. GraphiteQueries e' = GraphiteQueries e @ reqs \<and>
     (\<forall>j<length reqs.
        snapEnd (snapshot e' (reqs ! j)) =
          Some (Now e + int (length reqs) * sint (- p)) \<and>
        snapStart (snapshot e' (reqs ! j)) =
          Some (Now e + (int j + 1) * sint (- p) + sint (- d)))"
proof -
  let ?err0 = "if flt num 1 \<or> fgt num 100 then Some NumOutOfBounds else None"
  let ?now = "length (Mem e)"
  let ?req = "\<lparr>Targets = [query], Start = Some (Suc ?now), End = Some ?now, URL = None\<rparr>"
  let ?r0 = "\<lparr>Elements = [], IgnoreUnjoined = True, IgnoreOtherUnjoined = True\<rparr>"
  let ?e2 = "e\<lparr>Mem := Mem e @ [Now e, Add (Now e) (- d)]\<rparr>"
  let ?n = "toInt deps num"
  obtain err' r' e'' where
    loop: "bandLoop deps d p format ?n 0 ?now ?req ?r0 ?err0 ?e2 = (err', r', e'')"
    by (cases "bandLoop deps d p format ?n 0 ?now ?req ?r0 ?err0 ?e2") auto
  from Band_parsed [OF assms(1,2) loop] assms(3)
  have "(res, e') = (case err' of Some err1 \<Rightarrow> (Inl (GraphiteBand err1), e'')
                        | None \<Rightarrow> (Inr r', e''))"
    by simp
  then have e': "e' = e''" by (cases err') simp_all
  have in_mem: "?now < length (Mem ?e2)" by simp
  have ld: "load ?e2 ?now = Now e" by (simp add: load_def)
  from bandLoop_recorded [OF in_mem loop] obtain reqs where
    R: "GraphiteQueries e'' = GraphiteQueries ?e2 @ reqs \<and>
     length (Mem e'') = length (Mem ?e2) + length reqs \<and>
     load e'' ?now = load ?e2 ?now + int (length reqs) * sint (- p) \<and>
     (\<forall>a<length (Mem ?e2). a \<noteq> ?now \<longrightarrow> load e'' a = load ?e2 a) \<and>
     (\<forall>j<length reqs.
        End (reqs ! j) = Some ?now \<and> Start (reqs ! j) = Some (length (Mem ?e2) + j) \<and>
        load e'' (length (Mem ?e2) + j) =
          load ?e2 ?now + (int j + 1) * sint (- p) + sint (- d))" ..
  note q = R [THEN conjunct1]
  note n = R [THEN conjunct2, THEN conjunct2, THEN conjunct1]
  note w = R [THEN conjunct2, THEN conjunct2, THEN conjunct2, THEN conjunct2]
  show ?thesis
  proof (intro exI [of _ reqs] conjI allI impI)
    show "GraphiteQueries e' = GraphiteQueries e @ reqs" using q e' by simp
  next
    fix j assume j: "j < length reqs"
    with w have "End (reqs ! j) = Some ?now" by simp
    then show "snapEnd (snapshot e' (reqs ! j)) =
        Some (Now e + int (length reqs) * sint (- p))"
      using n ld e' by (simp add: snapshot_def)
  next
    fix j assume j: "j < length reqs"
    with w have "Start (reqs ! j) = Some (length (Mem ?e2) + j)"
      "load e'' (length (Mem ?e2) + j) =
          load ?e2 ?now + (int j + 1) * sint (- p) + sint (- d)" by simp_all
    then show "snapStart (snapshot e' (reqs ! j)) =
        Some (Now e + (int j + 1) * sint (- p) + sint (- d))"
      using ld e' by (simp add: snapshot_def)
  qed
qed

lemma findExisting_None:
  "(\<forall>k<length els. Group (els ! k) \<noteq> Group result) \<Longrightarrow> findExisting result els j0 = None"
proof (induction els arbitrary: j0)
  case Nil
  then show ?case by simp
next
  case (Cons x xs)
  from Cons.prems have "Group ((x # xs) ! 0) \<noteq> Group result" by blast
  then have x: "Group result \<noteq> Group x" by auto
  have "\<forall>k<length xs. Group (xs ! k) \<noteq> Group result"
  proof (intro allI impI)
    fix k assume "k < length xs"
    then have "Suc k < length (x # xs)" by simp
    with Cons.prems have "Group ((x # xs) ! Suc k) \<noteq> Group result" by blast
    then show "Group (xs ! k) \<noteq> Group result" by simp
  qed
  from Cons.IH [OF this] x show ?case by (simp add: Equal_def)
qed

lemma findExisting_first:
  "j < length els \<Longrightarrow> Group (els ! j) = Group result \<Longrightarrow>
   (\<forall>k<j. Group (els ! k) \<noteq> Group result) \<Longrightarrow>
   findExisting result els j0 = Some (j0 + j)"
proof (induction els arbitrary: j j0)
  case Nil
  then show ?case by simp
next
  case (Cons x xs)
  show ?case
  proof (cases j)
    case 0
    with Cons.prems show ?thesis by (simp add: Equal_def)
  next
    case (Suc j')
    with Cons.prems have "Group ((x # xs) ! 0) \<noteq> Group result" by blast
    then have x: "Group result \<noteq> Group x" by auto
    from Suc Cons.prems have a: "j' < length xs" and b: "Group (xs ! j') = Group result"
      by simp_all
    have c: "\<forall>k<j'. Group (xs ! k) \<noteq> Group result"
    proof (intro allI impI)
      fix k assume "k < j'"
      with Suc have "Suc k < j" by simp
      with Cons.prems have "Group ((x # xs) ! Suc k) \<noteq> Group result" by blast
      then show "Group (xs ! k) \<noteq> Group result" by simp
    qed
    from Cons.IH [OF a b c, of "Suc j0"] x Suc show ?thesis by (simp add: Equal_def)
  qed
qed


text \<open>
  \<^verbatim>\<open>Query\<close> once both durations are parsed and the request is answered; the state holds
  the variables \<^verbatim>\<open>st\<close> and \<^verbatim>\<open>et\<close>.
\<close>

lemma Query_parsed:
  assumes "ParseDuration deps sduration = Inr sd"
    and "eduration = '''' \<and> ed = 0 \<or> eduration \<noteq> '''' \<and> ParseDuration deps eduration = Inr ed"
    and "timeRequest deps (e\<lparr>Mem := Mem e @ [Add (Now e) (- sd), Add (Now e) (- ed)]\<rparr>)
           \<lparr>Targets = [query], Start = Some (length (Mem e)),
            End = Some (Suc (length (Mem e))), URL = None\<rparr> = (resp, req1, e1)"
  shows "Query deps e query sduration eduration format =
     (case resp of
        Inl err \<Rightarrow> (Inl (Foreign err), e1)
      | Inr s \<Rightarrow>
         (case parseGraphiteResponse deps req1 s (Split format CHR ''.'') of
            Inl err \<Rightarrow> (Inl err, e1)
          | Inr results \<Rightarrow>
              (Inr \<lparr>Elements = results, IgnoreUnjoined = False, IgnoreOtherUnjoined = False\<rparr>,
               e1)))"
proof -
  from assms(2)
  have "(if eduration \<noteq> '''' then ParseDuration deps eduration else Inr 0) = Inr ed"
    by auto
  with assms(1,3) show ?thesis
    by (simp add: Query_def Let_def alloc_def split: sum.splits)
qed


text \<open>
  Collaborators that keep a record answer as those they are made from, so that a call
  with them gives the same result and the same state, and the record beside it.
\<close>

lemma traced_fields [simp]:
  "ParseDuration (traced deps) = ParseDuration deps"
  "Valid (traced deps) = Valid deps"
  "String (traced deps) = String deps"
  "Float64 (traced deps) = Float64 deps"
  "Int64 (traced deps) = Int64 deps"
  "OutOfRangeInt (traced deps) = OutOfRangeInt deps"
  by (simp_all add: traced_def)

lemma traced_trace:
  "\<forall>c q. snd (snd (snd (Get (traced deps) c q))) = snd c @ [q]"
  by (simp add: traced_def split: prod.splits)

lemma withTrace_fields [simp]:
  "Now (withTrace e t) = Now e"
  "GraphiteQueries (withTrace e t) = GraphiteQueries e"
  "Cache (withTrace e t) = (Cache e, t)"
  "Mem (withTrace e t) = Mem e"
  by (simp_all add: withTrace_def)

lemma toInt_traced: "toInt (traced deps) num = toInt deps num"
  by (cases num) (simp_all add: toInt_def)

lemma load_fun: "load e = (!) (Mem e)"
  by (rule ext) (simp add: load_def)

lemma buildData_traced:
  "buildData (traced deps) req ds dps = buildData deps req ds dps"
  by (induction ds arbitrary: dps) (simp_all split: sum.splits)

lemma parseSeries_traced:
  "parseSeries (traced deps) req formatTags s seen results =
   parseSeries deps req formatTags s seen results"
  by (induction s arbitrary: seen results)
     (simp_all add: buildData_traced Let_def split: sum.splits)

lemma parseGraphiteResponse_traced:
  "parseGraphiteResponse (traced deps) req s formatTags =
   parseGraphiteResponse deps req s formatTags"
  by (simp add: parseGraphiteResponse_def parseSeries_traced)

lemma timeRequest_traced:
  "timeRequest deps e req = (resp, req', e') \<Longrightarrow>
   timeRequest (traced deps) (withTrace e t) req =
     (resp, req', withTrace e' (t @ [snapshot e req]))"
  by (auto simp: timeRequest_def traced_def withTrace_def snapshot_def load_fun Let_def
      split: prod.splits)

lemma nextWindow_traced:
  "nextWindow e d p now req = (req2, e2) \<Longrightarrow>
   nextWindow (withTrace e t) d p now req = (req2, withTrace e2 t)"
  by (auto simp: nextWindow_def withTrace_def alloc_def store_def load_def Let_def)

lemma bandLoop_traced:
  "bandLoop deps d p format n i now req r err e = (err', r', e') \<Longrightarrow>
   \<exists>t'. bandLoop (traced deps) d p format n i now req r err (withTrace e t) =
     (err', r', withTrace e' t')"
proof (induction "nat (n - i)" arbitrary: i req r err e t)
  case 0
  then have "n \<le> i" by simp
  with 0 have "err' = err" "r' = r" "e' = e" by (simp_all add: bandLoop_done)
  with \<open>n \<le> i\<close> show ?case by (intro exI [of _ t]) (simp add: bandLoop_done)
next
  case (Suc k)
  then have lt: "i < n" and k: "k = nat (n - (i + 1))" by simp_all
  obtain req2 e2 where nw: "nextWindow e d p now req = (req2, e2)"
    by (cases "nextWindow e d p now req") auto
  obtain resp req3 e3 where tr: "timeRequest deps e2 req2 = (resp, req3, e3)"
    by (cases "timeRequest deps e2 req2") auto
  let ?t3 = "t @ [snapshot e2 req2]"
  note nw' = nextWindow_traced [OF nw, of t]
  note tr' = timeRequest_traced [OF tr, of t]
  note step = bandLoop_step [OF lt nw tr, of format r err]
  note step' = bandLoop_step [OF lt nw' tr', of format r err]
  show ?case
  proof (cases resp)
    case (Inl err1)
    with step step' Suc.prems show ?thesis by auto
  next
    case (Inr s)
    note s = this
    show ?thesis
    proof (cases "parseGraphiteResponse deps req3 s (Split format CHR ''.'')")
      case (Inl err1)
      with step step' s Suc.prems show ?thesis
        by (auto simp: parseGraphiteResponse_traced)
    next
      case (Inr results)
      let ?r1 = "if i = 0 then r\<lparr>Elements := results\<rparr> else foldl mergeResult r results"
      from step s Inr Suc.prems
      have rec: "bandLoop deps d p format n (i + 1) now req3 ?r1 None e3 = (err', r', e')"
        by simp
      from Suc.hyps(1) [OF k rec, of ?t3] obtain t' where
        "bandLoop (traced deps) d p format n (i + 1) now req3 ?r1 None (withTrace e3 ?t3) =
           (err', r', withTrace e' t')" ..
      with step' s Inr show ?thesis
        by (auto simp: parseGraphiteResponse_traced)
    qed
  qed
qed

lemma withTrace_mem:
  "(withTrace e t)\<lparr>Mem := m\<rparr> = withTrace (e\<lparr>Mem := m\<rparr>) t"
  by (simp add: withTrace_def)

lemma Band_traced:
  "\<exists>t'. Band (traced deps) (withTrace e t) query duration period format num =
     (fst (Band deps e query duration period format num),
      withTrace (snd (Band deps e query duration period format num)) t')"
proof (cases "ParseDuration deps duration")
  case (Inl x)
  then show ?thesis by (intro exI [of _ t]) (simp add: Band_def)
next
  case (Inr d)
  note d = this
  show ?thesis
  proof (cases "ParseDuration deps period")
    case (Inl x)
    with d show ?thesis by (intro exI [of _ t]) (simp add: Band_def)
  next
    case (Inr p)
    let ?err0 = "if flt num 1 \<or> fgt num 100 then Some NumOutOfBounds else None"
    let ?now = "length (Mem e)"
    let ?req = "\<lparr>Targets = [query], Start = Some (Suc ?now), End = Some ?now, URL = None\<rparr>"
    let ?r0 = "\<lparr>Elements = [], IgnoreUnjoined = True, IgnoreOtherUnjoined = True\<rparr>
       :: 'a ValueSet"
    let ?e2 = "e\<lparr>Mem := Mem e @ [Now e, Add (Now e) (- d)]\<rparr>"
    obtain err' r' e' where loop:
      "bandLoop deps d p format (toInt deps num) 0 ?now ?req ?r0 ?err0 ?e2 = (err', r', e')"
      by (cases "bandLoop deps d p format (toInt deps num) 0 ?now ?req ?r0 ?err0 ?e2") auto
    from bandLoop_traced [OF loop, of t] obtain t' where loop':
      "bandLoop (traced deps) d p format (toInt deps num) 0 ?now ?req ?r0 ?err0
         (withTrace ?e2 t) = (err', r', withTrace e' t')" ..
    have d': "ParseDuration (traced deps) duration = Inr d"
      and p': "ParseDuration (traced deps) period = Inr p"
      using d Inr by simp_all
    from loop' have loop'':
      "bandLoop (traced deps) d p format (toInt (traced deps) num) 0
         (length (Mem (withTrace e t)))
         \<lparr>Targets = [query], Start = Some (Suc (length (Mem (withTrace e t)))),
          End = Some (length (Mem (withTrace e t))), URL = None\<rparr> ?r0 ?err0
         ((withTrace e t)\<lparr>Mem := Mem (withTrace e t) @
            [Now (withTrace e t), Add (Now (withTrace e t)) (- d)]\<rparr>) =
         (err', r', withTrace e' t')"
      by (simp add: toInt_traced withTrace_mem)
    from Band_parsed [OF d Inr loop] Band_parsed [OF d' p' loop'']
    show ?thesis by (cases err') auto
  qed
qed

lemma Query_traced:
  "\<exists>t'. Query (traced deps) (withTrace e t) query sduration eduration format =
     (fst (Query deps e query sduration eduration format),
      withTrace (snd (Query deps e query sduration eduration format)) t')"
proof (cases "ParseDuration deps sduration")
  case (Inl x)
  then show ?thesis by (intro exI [of _ t]) (simp add: Query_def)
next
  case (Inr sd)
  note sd = this
  show ?thesis
  proof (cases "if eduration \<noteq> [] then ParseDuration deps eduration else Inr 0")
    case (Inl x)
    with sd show ?thesis by (intro exI [of _ t]) (simp add: Query_def split: if_splits)
  next
    case (Inr ed)
    let ?e2 = "e\<lparr>Mem := Mem e @ [Add (Now e) (- sd), Add (Now e) (- ed)]\<rparr>"
    let ?req = "\<lparr>Targets = [query], Start = Some (length (Mem e)),
       End = Some (Suc (length (Mem e))), URL = None\<rparr>"
    let ?f = "Split format CHR ''.''"
    obtain resp req1 e1 where tr: "timeRequest deps ?e2 ?req = (resp, req1, e1)"
      by (cases "timeRequest deps ?e2 ?req") auto
    note tr' = timeRequest_traced [OF tr, of t]
    have ed': "(if eduration \<noteq> [] then ParseDuration (traced deps) eduration else Inr 0) =
       Inr ed"
      using Inr by (auto split: if_splits)
    let ?t1 = "t @ [snapshot ?e2 ?req]"
    have Q: "Query deps e query sduration eduration format =
       (case resp of
          Inl err \<Rightarrow> (Inl (Foreign err), e1)
        | Inr s \<Rightarrow>
           (case parseGraphiteResponse deps req1 s ?f of
              Inl err \<Rightarrow> (Inl err, e1)
            | Inr results \<Rightarrow>
                (Inr \<lparr>Elements = results, IgnoreUnjoined = False,
                      IgnoreOtherUnjoined = False\<rparr>, e1)))"
      using sd Inr tr by (simp add: Query_def Let_def alloc_def split: sum.splits)
    have Q': "Query (traced deps) (withTrace e t) query sduration eduration format =
       (case resp of
          Inl err \<Rightarrow> (Inl (Foreign err), withTrace e1 ?t1)
        | Inr s \<Rightarrow>
           (case parseGraphiteResponse deps req1 s ?f of
              Inl err \<Rightarrow> (Inl err, withTrace e1 ?t1)
            | Inr results \<Rightarrow>
                (Inr \<lparr>Elements = results, IgnoreUnjoined = False,
                      IgnoreOtherUnjoined = False\<rparr>, withTrace e1 ?t1)))"
      using sd ed' tr'
      by (simp add: Query_def Let_def alloc_def withTrace_mem parseGraphiteResponse_traced
          split: sum.splits)
    show ?thesis unfolding Q Q' by (auto split: sum.splits)
  qed
qed

subsection \<open>The sample collaborators at work\<close>

lemma parse_sample:
  "parseGraphiteResponse (sampleDeps resp0) req resp0 [''''] =
     Inr [\<lparr>Value = [10000000000 \<mapsto> 1], Group = [''key'' \<mapsto> ''a'']\<rparr>]"
  by (simp add: parseGraphiteResponse_def buildTagSet_def sample_simps resp0_def Unix_def)

lemma merge_sample:
  "Elements r = [el] \<Longrightarrow> foldl mergeResult r [el] = r"
  by (cases r) (simp add: mergeResult_def Equal_def map_add_idem)

text \<open>The state of the sample backend is the record of what it has read.\<close>

lemma sample_trace:
  "\<forall>c q. snd (snd (Get (sampleDeps resp) c q)) = c @ [q]"
  by (simp add: sampleDeps_def)

text \<open>
  With the sample backend every window succeeds and decodes to the same element, so the
  loop runs to its bound, whatever the bound is.
\<close>

lemma bandLoop_sample:
  assumes "i < n" and "i = 0 \<or> Elements r = [\<lparr>Value = [10000000000 \<mapsto> 1], Group = [''key'' \<mapsto> ''a'']\<rparr>]"
  shows "\<exists>e'. bandLoop (sampleDeps resp0) d p '''' n i now req r err e =
     (None, r\<lparr>Elements := [\<lparr>Value = [10000000000 \<mapsto> 1], Group = [''key'' \<mapsto> ''a'']\<rparr>]\<rparr>, e')"
  using assms
proof (induction "nat (n - i)" arbitrary: i req r err e)
  case 0
  then show ?case by simp
next
  case (Suc k)
  let ?el = "\<lparr>Value = [10000000000 \<mapsto> (1::rat)], Group = [''key'' \<mapsto> ''a'']\<rparr>"
  from Suc have lt: "i < n" and k: "k = nat (n - (i + 1))" by simp_all
  obtain req2 e2 where nw: "nextWindow e d p now req = (req2, e2)"
    by (cases "nextWindow e d p now req") auto
  let ?req3 = "req2\<lparr>URL := Some ''http://graphite/render''\<rparr>"
  let ?e3 = "e2\<lparr>GraphiteQueries := GraphiteQueries e2 @ [req2],
                Cache := Cache e2 @ [snapshot e2 req2]\<rparr>"
  have tr: "timeRequest (sampleDeps resp0) e2 req2 = (Inr resp0, ?req3, ?e3)"
    by (simp add: timeRequest_def sampleDeps_def)
  let ?r1 = "if i = 0 then r\<lparr>Elements := [?el]\<rparr> else foldl mergeResult r [?el]"
  from bandLoop_step [OF lt nw tr, of "''''" r err]
  have step: "bandLoop (sampleDeps resp0) d p '''' n i now req r err e =
     bandLoop (sampleDeps resp0) d p '''' n (i + 1) now ?req3 ?r1 None ?e3"
    by (simp add: parse_sample)
  have r1: "?r1 = r\<lparr>Elements := [?el]\<rparr>"
  proof (cases "i = 0")
    case True
    then show ?thesis by simp
  next
    case False
    with Suc.prems have "Elements r = [?el]" by simp
    then have "foldl mergeResult r [?el] = r" by (rule merge_sample)
    with False \<open>Elements r = [?el]\<close> show ?thesis by simp
  qed
  show ?case
  proof (cases "i + 1 < n")
    case True
    have "i + 1 = 0 \<or> Elements (r\<lparr>Elements := [?el]\<rparr>) = [?el]" by simp
    from Suc.hyps(1) [OF k True this, where req = ?req3 and err = None and e = ?e3]
    show ?thesis unfolding step r1 by simp
  next
    case False
    then have "n \<le> i + 1" by simp
    then show ?thesis unfolding step r1 by (simp add: bandLoop_done)
  qed
qed

lemmas run_simps = Band_def Query_def bandLoop.simps nextWindow_def timeRequest_def
  alloc_def store_def load_def snapshot_def parseGraphiteResponse_def buildTagSet_def
  resp0_def toInt_def Add_def Unix_def Let_def mergeResult_def Equal_def Append_def

lemma Band_sample_1:
  "Band (sampleDeps resp0) e0 ''q'' ''1h'' ''2h'' '''' (Finite 1) =
     (Inr \<lparr>Elements = [\<lparr>Value = [10000000000 \<mapsto> 1], Group = [''key'' \<mapsto> ''a'']\<rparr>],
           IgnoreUnjoined = True, IgnoreOtherUnjoined = True\<rparr>,
      \<lparr>Now = 0,
       GraphiteQueries = [\<lparr>Targets = [''q''], Start = Some 2, End = Some 0, URL = None\<rparr>],
       Cache = [\<lparr>snapTargets = [''q''], snapStart = Some (- 10800000000000),
                 snapEnd = Some (- 7200000000000), snapURL = None\<rparr>],
       Mem = [- 7200000000000, - 3600000000000, - 10800000000000]\<rparr>)"
  by (simp add: run_simps sample_simps)

lemma Band_sample_3:
  "Band (sampleDeps resp0) e0 ''q'' ''1h'' ''1h'' '''' (Finite 3) =
     (Inr \<lparr>Elements = [\<lparr>Value = [10000000000 \<mapsto> 1], Group = [''key'' \<mapsto> ''a'']\<rparr>],
           IgnoreUnjoined = True, IgnoreOtherUnjoined = True\<rparr>,
      \<lparr>Now = 0,
       GraphiteQueries =
         [\<lparr>Targets = [''q''], Start = Some 2, End = Some 0, URL = None\<rparr>,
          \<lparr>Targets = [''q''], Start = Some 3, End = Some 0,
           URL = Some ''http://graphite/render''\<rparr>,
          \<lparr>Targets = [''q''], Start = Some 4, End = Some 0,
           URL = Some ''http://graphite/render''\<rparr>],
       Cache =
         [\<lparr>snapTargets = [''q''], snapStart = Some (- 7200000000000),
           snapEnd = Some (- 3600000000000), snapURL = None\<rparr>,
          \<lparr>snapTargets = [''q''], snapStart = Some (- 10800000000000),
           snapEnd = Some (- 7200000000000), snapURL = Some ''http://graphite/render''\<rparr>,
          \<lparr>snapTargets = [''q''], snapStart = Some (- 14400000000000),
           snapEnd = Some (- 10800000000000), snapURL = Some ''http://graphite/render''\<rparr>],
       Mem = [- 10800000000000, - 3600000000000, - 7200000000000, - 10800000000000,
              - 14400000000000]\<rparr>)"
  by (simp add: run_simps sample_simps)

lemma Query_sample:
  "Query (sampleDeps resp0) e0 ''q'' ''2h'' ''1h'' '''' =
     (Inr \<lparr>Elements = [\<lparr>Value = [10000000000 \<mapsto> 1], Group = [''key'' \<mapsto> ''a'']\<rparr>],
           IgnoreUnjoined = False, IgnoreOtherUnjoined = False\<rparr>,
      \<lparr>Now = 0,
       GraphiteQueries = [\<lparr>Targets = [''q''], Start = Some 0, End = Some 1, URL = None\<rparr>],
       Cache = [\<lparr>snapTargets = [''q''], snapStart = Some (- 7200000000000),
                 snapEnd = Some (- 3600000000000), snapURL = None\<rparr>],
       Mem = [- 7200000000000, - 3600000000000]\<rparr>)"
  by (simp add: run_simps sample_simps)

subsection \<open>The response decoder\<close>

text \<open>
  C4. Decoding a response of zero series fails with the decode error that carries the
  request's URL and the cause \<^verbatim>\<open>"empty response"\<close>; and no response, empty or not,
  decodes to an empty list of elements.
\<close>

theorem parseGraphiteResponse_empty:
  "parseGraphiteResponse deps req [] formatTags =
     Inl (ParseError (URL req) (Message ''empty response'')) \<and>
   parseGraphiteResponse deps req s formatTags \<noteq> Inr []"
proof
  show "parseGraphiteResponse deps req [] formatTags =
     Inl (ParseError (URL req) (Message ''empty response''))"
    by (simp add: parseGraphiteResponse_def)
  show "parseGraphiteResponse deps req s formatTags \<noteq> Inr []"
  proof
    assume a: "parseGraphiteResponse deps req s formatTags = Inr []"
    then have ne: "s \<noteq> []" by (auto simp: parseGraphiteResponse_def)
    with a have "parseSeries deps req formatTags s {} [] = Inr []"
      by (simp add: parseGraphiteResponse_def)
    from parseSeries_prefix [OF this] ne show False by simp
  qed
qed

text \<open>
  C5, as amended. When two series of a response map to tag sets with the same canonical
  string, decoding fails with a decode error and returns no elements. The error is the
  duplicate-identity error, of that canonical string, whenever the series before the
  second of the two decode without error and its tag set is valid; otherwise it is the
  decode error met first.
\<close>

theorem parseGraphiteResponse_duplicate:
  assumes "i < j" and "j < length s"
    and "buildTagSet req formatTags (s ! i) = Inr ti"
    and "buildTagSet req formatTags (s ! j) = Inr tj"
    and "String deps ti = String deps tj"
  shows "(\<exists>c. parseGraphiteResponse deps req s formatTags = Inl (ParseError (URL req) c)) \<and>
         (\<forall>els. Valid deps tj \<and> parseGraphiteResponse deps req (take j s) formatTags = Inr els \<longrightarrow>
            parseGraphiteResponse deps req s formatTags =
              Inl (ParseError (URL req) (DuplicateTagset (String deps tj))))"
proof
  from assms have ne: "s \<noteq> []" by auto
  show "\<exists>c. parseGraphiteResponse deps req s formatTags = Inl (ParseError (URL req) c)"
  proof (cases "parseGraphiteResponse deps req s formatTags")
    case (Inl err)
    with parseGraphiteResponse_Inl [OF Inl] show ?thesis by auto
  next
    case (Inr els)
    with ne have p: "parseSeries deps req formatTags s {} [] = Inr els"
      by (simp add: parseGraphiteResponse_def)
    from assms have "i < length s" by simp
    from parseSeries_nth [OF p this] assms(3) have "Group (els ! i) = ti" by simp
    moreover from parseSeries_nth [OF p assms(2)] assms(4) have "Group (els ! j) = tj" by simp
    moreover from parseSeries_distinct [OF p assms(1,2)]
    have "String deps (Group (els ! i)) \<noteq> String deps (Group (els ! j))" by simp
    ultimately show ?thesis using assms(5) by simp
  qed
  show "\<forall>els. Valid deps tj \<and> parseGraphiteResponse deps req (take j s) formatTags = Inr els \<longrightarrow>
            parseGraphiteResponse deps req s formatTags =
              Inl (ParseError (URL req) (DuplicateTagset (String deps tj)))"
  proof (intro allI impI, elim conjE)
    fix els
    assume v: "Valid deps tj"
      and a: "parseGraphiteResponse deps req (take j s) formatTags = Inr els"
    from a have p: "parseSeries deps req formatTags (take j s) {} [] = Inr els"
      by (simp add: parseGraphiteResponse_def split: if_splits)
    from assms have i: "i < length (take j s)" by simp
    from parseSeries_nth [OF p i] assms(1,3) have "Group (els ! i) = ti" by simp
    with assms(5) i
    have "\<exists>k<length (take j s). String deps (Group (els ! (length [] + k))) = String deps tj"
      by auto
    then have "parseSeries deps req formatTags (take j s @ s ! j # drop (Suc j) s) {} [] =
       Inl (ParseError (URL req) (DuplicateTagset (String deps tj)))"
      using parseSeries_duplicate [OF assms(4) v p] by blast
    moreover from assms(2) have "take j s @ s ! j # drop (Suc j) s = s"
      by (simp add: id_take_nth_drop [symmetric])
    ultimately show "parseGraphiteResponse deps req s formatTags =
              Inl (ParseError (URL req) (DuplicateTagset (String deps tj)))"
      using ne by (simp add: parseGraphiteResponse_def)
  qed
qed

text \<open>
  The theorem at a response of two series named \<^verbatim>\<open>a\<close> under the format \<^verbatim>\<open>""\<close>.
\<close>

theorem parseGraphiteResponse_duplicate_witness:
  "buildTagSet req0 [''''] \<lparr>Datapoints = [[''1'', ''10'']], Target = ''a''\<rparr> =
     Inr [''key'' \<mapsto> ''a''] \<and>
   buildTagSet req0 [''''] \<lparr>Datapoints = [], Target = ''a''\<rparr> = Inr [''key'' \<mapsto> ''a''] \<and>
   parseGraphiteResponse (sampleDeps []) req0
      [\<lparr>Datapoints = [[''1'', ''10'']], Target = ''a''\<rparr>] [''''] =
     Inr [\<lparr>Value = [10000000000 \<mapsto> 1], Group = [''key'' \<mapsto> ''a'']\<rparr>] \<and>
   parseGraphiteResponse (sampleDeps []) req0
      [\<lparr>Datapoints = [[''1'', ''10'']], Target = ''a''\<rparr>, \<lparr>Datapoints = [], Target = ''a''\<rparr>]
      [''''] = Inl (ParseError None (DuplicateTagset ''{key=a}''))"
proof -
  let ?s1 = "\<lparr>Datapoints = [[''1'', ''10'']], Target = ''a''\<rparr>"
  let ?s2 = "\<lparr>Datapoints = [], Target = ''a''\<rparr>"
  let ?s = "[?s1, ?s2]"
  let ?t = "[''key'' \<mapsto> ''a'']"
  have h1: "(0::nat) < 1" and h2: "1 < length ?s" by simp_all
  have h3: "buildTagSet req0 [''''] (?s ! 0) = Inr ?t"
    and h4: "buildTagSet req0 [''''] (?s ! 1) = Inr ?t"
    by (simp_all add: buildTagSet_def)
  have h5: "String (sampleDeps []) ?t = String (sampleDeps []) ?t" by simp
  have v: "Valid (sampleDeps []) ?t" by (simp add: sampleDeps_def)
  have p: "parseGraphiteResponse (sampleDeps []) req0 (take 1 ?s) [''''] =
     Inr [\<lparr>Value = [10000000000 \<mapsto> 1], Group = ?t\<rparr>]"
    by (simp add: parseGraphiteResponse_def buildTagSet_def sample_simps Unix_def)
  from parseGraphiteResponse_duplicate [OF h1 h2 h3 h4 h5] v p
  have "parseGraphiteResponse (sampleDeps []) req0 ?s [''''] =
     Inl (ParseError (URL req0) (DuplicateTagset (String (sampleDeps []) ?t)))"
    by blast
  with h3 h4 p show ?thesis by (simp add: sample_simps)
qed

text \<open>
  C5 as stated fails: when the first of two series with the same tag set has a datapoint
  of one token, decoding fails with the error of that datapoint, not with the
  duplicate-identity error.
\<close>

theorem parseGraphiteResponse_duplicate_counterexample:
  "buildTagSet req0 [''''] \<lparr>Datapoints = [[''1'']], Target = ''a''\<rparr> = Inr [''key'' \<mapsto> ''a''] \<and>
   buildTagSet req0 [''''] \<lparr>Datapoints = [], Target = ''a''\<rparr> = Inr [''key'' \<mapsto> ''a''] \<and>
   parseGraphiteResponse (sampleDeps []) req0
      [\<lparr>Datapoints = [[''1'']], Target = ''a''\<rparr>, \<lparr>Datapoints = [], Target = ''a''\<rparr>] [''''] =
     Inl (ParseError None (DatapointFields [''1''])) \<and>
   parseGraphiteResponse (sampleDeps []) req0
      [\<lparr>Datapoints = [[''1'']], Target = ''a''\<rparr>, \<lparr>Datapoints = [], Target = ''a''\<rparr>] [''''] \<noteq>
     Inl (ParseError None (DuplicateTagset (String (sampleDeps []) [''key'' \<mapsto> ''a''])))"
  by (simp add: parseGraphiteResponse_def buildTagSet_def sample_simps)

text \<open>
  C6, as amended. Under the format \<^verbatim>\<open>[""]\<close> the tag set of a series is \<^verbatim>\<open>key\<close> bound to
  the whole name. Otherwise the name is split on the dot; fewer segments than the format
  has entries is the decode error of the mismatch; else the keys of the tag set are the
  non-empty format segments, and a non-empty segment is bound to the name segment at its
  position when the same key does not stand at a later position of the format (a key
  that is repeated is bound at its last position). Name segments at empty format
  positions bind nothing. The group of every decoded element is the tag set computed
  this way for its series.
\<close>

theorem buildTagSet_tags:
  "(formatTags = [''''] \<longrightarrow>
      buildTagSet req formatTags res = Inr [''key'' \<mapsto> Target res]) \<and>
   (formatTags \<noteq> [''''] \<and> length (Split (Target res) CHR ''.'') < length formatTags \<longrightarrow>
      buildTagSet req formatTags res =
        Inl (ParseError (URL req) (TargetMismatch (Target res) formatTags))) \<and>
   (formatTags \<noteq> [''''] \<and> length formatTags \<le> length (Split (Target res) CHR ''.'') \<longrightarrow>
      (\<exists>tags. buildTagSet req formatTags res = Inr tags \<and>
         dom tags = {key \<in> set formatTags. key \<noteq> ''''} \<and>
         (\<forall>i<length formatTags.
            formatTags ! i \<noteq> '''' \<and>
            (\<forall>j. i < j \<and> j < length formatTags \<longrightarrow> formatTags ! j \<noteq> formatTags ! i) \<longrightarrow>
            tags (formatTags ! i) = Some (Split (Target res) CHR ''.'' ! i)))) \<and>
   (\<forall>s els k.
      parseGraphiteResponse deps req s formatTags = Inr els \<and> k < length s \<longrightarrow>
      buildTagSet req formatTags (s ! k) = Inr (Group (els ! k)))"
proof -
  have single: "(length formatTags = 1 \<and> formatTags ! 0 = '''') = (formatTags = [''''])"
    by (cases formatTags) auto
  show ?thesis
  proof (intro conjI impI)
    assume "formatTags = ['''']"
    then show "buildTagSet req formatTags res = Inr [''key'' \<mapsto> Target res]"
      by (simp add: buildTagSet_def)
  next
    assume "formatTags \<noteq> [''''] \<and> length (Split (Target res) CHR ''.'') < length formatTags"
    then show "buildTagSet req formatTags res =
        Inl (ParseError (URL req) (TargetMismatch (Target res) formatTags))"
      unfolding buildTagSet_def single by (simp add: Let_def)
  next
    let ?nodes = "Split (Target res) CHR ''.''"
    let ?tags = "fold (\<lambda>i tags. let key = formatTags ! i in
               if length key > 0 then tags(key \<mapsto> ?nodes ! i) else tags)
               [0..<length formatTags] Map.empty"
    assume a: "formatTags \<noteq> [''''] \<and> length formatTags \<le> length ?nodes"
    then have "buildTagSet req formatTags res = Inr ?tags"
      unfolding buildTagSet_def single by (simp add: Let_def)
    moreover have "dom ?tags = {key \<in> set formatTags. key \<noteq> ''''}"
      using setTags_dom [of "length formatTags" formatTags ?nodes] by simp
    moreover have "\<forall>i<length formatTags.
            formatTags ! i \<noteq> '''' \<and>
            (\<forall>j. i < j \<and> j < length formatTags \<longrightarrow> formatTags ! j \<noteq> formatTags ! i) \<longrightarrow>
            ?tags (formatTags ! i) = Some (?nodes ! i)"
      using setTags_last [of "length formatTags" formatTags _ ?nodes] by blast
    ultimately show "\<exists>tags. buildTagSet req formatTags res = Inr tags \<and>
         dom tags = {key \<in> set formatTags. key \<noteq> ''''} \<and>
         (\<forall>i<length formatTags.
            formatTags ! i \<noteq> '''' \<and>
            (\<forall>j. i < j \<and> j < length formatTags \<longrightarrow> formatTags ! j \<noteq> formatTags ! i) \<longrightarrow>
            tags (formatTags ! i) = Some (Split (Target res) CHR ''.'' ! i))"
      by blast
  next
    show "\<forall>s els k.
      parseGraphiteResponse deps req s formatTags = Inr els \<and> k < length s \<longrightarrow>
      buildTagSet req formatTags (s ! k) = Inr (Group (els ! k))"
    proof (intro allI impI, elim conjE)
      fix s els k
      assume "parseGraphiteResponse deps req s formatTags = Inr els" and "k < length s"
      then show "buildTagSet req formatTags (s ! k) = Inr (Group (els ! k))"
        by (rule parseGraphiteResponse_Inr(2))
    qed
  qed
qed

text \<open>
  C6 as stated fails for a format that repeats a key: under \<^verbatim>\<open>"a.a"\<close> the name
  \<^verbatim>\<open>"x.y"\<close> gives \<^verbatim>\<open>a\<close> bound to \<^verbatim>\<open>y\<close>, so the segment at position 0 is not bound to
  the name segment at position 0.
\<close>

theorem buildTagSet_tags_counterexample:
  "buildTagSet req0 (Split ''a.a'' CHR ''.'') \<lparr>Datapoints = [], Target = ''x.y''\<rparr> =
     Inr [''a'' \<mapsto> ''y''] \<and>
   Split ''a.a'' CHR ''.'' ! 0 = ''a'' \<and> Split ''x.y'' CHR ''.'' ! 0 = ''x'' \<and>
   [''a'' \<mapsto> ''y''] ''a'' \<noteq> Some ''x''"
  by (simp add: buildTagSet_def Let_def)

text \<open>
  The theorem at the formats \<^verbatim>\<open>""\<close>, \<^verbatim>\<open>"host.dc.rack"\<close> and \<^verbatim>\<open>"host.."\<close>.
\<close>

theorem buildTagSet_tags_witness:
  "Split '''' CHR ''.'' = [''''] \<and>
   buildTagSet req0 (Split '''' CHR ''.'') \<lparr>Datapoints = [], Target = ''foo.bar''\<rparr> =
     Inr [''key'' \<mapsto> ''foo.bar''] \<and>
   buildTagSet req0 (Split ''host.dc.rack'' CHR ''.'') \<lparr>Datapoints = [], Target = ''web1.cpu''\<rparr> =
     Inl (ParseError None (TargetMismatch ''web1.cpu'' [''host'', ''dc'', ''rack''])) \<and>
   (\<exists>tags. buildTagSet req0 (Split ''host..'' CHR ''.'')
              \<lparr>Datapoints = [], Target = ''web1.cpu.idle''\<rparr> = Inr tags \<and>
            dom tags = {''host''} \<and> tags ''host'' = Some ''web1'') \<and>
   parseGraphiteResponse (sampleDeps []) req0
     [\<lparr>Datapoints = [], Target = ''foo.bar''\<rparr>] (Split '''' CHR ''.'') =
     Inr [\<lparr>Value = Map.empty, Group = [''key'' \<mapsto> ''foo.bar'']\<rparr>]"
proof -
  let ?r1 = "\<lparr>Datapoints = [], Target = ''foo.bar''\<rparr>"
  let ?r2 = "\<lparr>Datapoints = [], Target = ''web1.cpu''\<rparr>"
  let ?r3 = "\<lparr>Datapoints = [], Target = ''web1.cpu.idle''\<rparr>"
  let ?f = "[''host'', '''', '''']"
  let ?g = "[''host'', ''dc'', ''rack'']"
  note T1 = buildTagSet_tags [where formatTags = "['''']" and req = req0 and res = ?r1
      and deps = "sampleDeps []"]
  note T2 = buildTagSet_tags [where formatTags = ?g and req = req0 and res = ?r2
      and deps = "sampleDeps []"]
  note T3 = buildTagSet_tags [where formatTags = ?f and req = req0 and res = ?r3
      and deps = "sampleDeps []"]
  have a: "Split '''' CHR ''.'' = ['''']" by simp
  have b: "?g \<noteq> [''''] \<and> length (Split (Target ?r2) CHR ''.'') < length ?g" by simp
  have c: "?f \<noteq> [''''] \<and> length ?f \<le> length (Split (Target ?r3) CHR ''.'')" by simp
  have 1: "buildTagSet req0 [''''] ?r1 = Inr [''key'' \<mapsto> Target ?r1]"
    by (rule T1 [THEN conjunct1, rule_format]) (rule refl)
  have 2: "buildTagSet req0 ?g ?r2 =
     Inl (ParseError (URL req0) (TargetMismatch (Target ?r2) ?g))"
    by (rule T2 [THEN conjunct2, THEN conjunct1, rule_format]) (rule b)
  from T3 [THEN conjunct2, THEN conjunct2, THEN conjunct1, rule_format, OF c]
  obtain tags where t: "buildTagSet req0 ?f ?r3 = Inr tags \<and>
    dom tags = {key \<in> set ?f. key \<noteq> ''''} \<and>
    (\<forall>i<length ?f. ?f ! i \<noteq> '''' \<and> (\<forall>j. i < j \<and> j < length ?f \<longrightarrow> ?f ! j \<noteq> ?f ! i) \<longrightarrow>
            tags (?f ! i) = Some (Split (Target ?r3) CHR ''.'' ! i))" ..
  note t1 = t [THEN conjunct1]
  note t2 = t [THEN conjunct2, THEN conjunct1]
  note t3 = t [THEN conjunct2, THEN conjunct2, rule_format]
  from t2 have d: "dom tags = {''host''}" by auto
  have "0 < length ?f" by simp
  moreover have "?f ! 0 \<noteq> '''' \<and> (\<forall>j. 0 < j \<and> j < length ?f \<longrightarrow> ?f ! j \<noteq> ?f ! 0)"
    by (auto simp: less_Suc_eq numeral_3_eq_3)
  ultimately have "tags (?f ! 0) = Some (Split (Target ?r3) CHR ''.'' ! 0)"
    by (rule t3)
  then have e: "tags ''host'' = Some ''web1''" by simp
  let ?els = "[\<lparr>Value = (Map.empty :: rat Series), Group = [''key'' \<mapsto> ''foo.bar'']\<rparr>]"
  have p: "parseGraphiteResponse (sampleDeps []) req0 [?r1] [''''] = Inr ?els"
    by (simp add: parseGraphiteResponse_def buildTagSet_def sample_simps)
  have "parseGraphiteResponse (sampleDeps []) req0 [?r1] [''''] = Inr ?els \<and>
     (0::nat) < length [?r1]"
    using p by simp
  then have l: "buildTagSet req0 [''''] ([?r1] ! 0) = Inr (Group (?els ! 0))"
    by (rule T1 [THEN conjunct2, THEN conjunct2, THEN conjunct2, rule_format])
  from a 1 2 t1 d e p l show ?thesis by (simp add: req0_def)
qed

text \<open>
  C7. Every datapoint of a series goes through the same steps, whatever datapoints of the
  series came before it without error (\<open>pre\<close>, which left the series \<open>dps\<close>) and come
  after it (\<open>post\<close>): a datapoint that has not exactly two tokens is a decode error; one
  whose value token is empty, the explicit "no value", is skipped and the datapoints
  after it are decoded from the same series; otherwise the value token is converted to a
  float and the timestamp token to an integer of epoch seconds, a failure of either is a
  decode error, and the value is stored at the instant of that second before the
  datapoints after it are decoded. The series of every decoded element is what these
  steps build from the empty series.
\<close>

theorem buildData_datapoint:
  assumes "buildData deps req pre dps0 = Inr dps"
  shows
   "(length dp \<noteq> 2 \<longrightarrow>
       buildData deps req (pre @ dp # post) dps0 =
         Inl (ParseError (URL req) (DatapointFields dp))) \<and>
    (length dp = 2 \<and> dp ! 0 = '''' \<longrightarrow>
       buildData deps req (pre @ dp # post) dps0 = buildData deps req post dps) \<and>
    (\<forall>err. length dp = 2 \<and> dp ! 0 \<noteq> '''' \<and> Float64 deps (dp ! 0) = Inl err \<longrightarrow>
       buildData deps req (pre @ dp # post) dps0 =
         Inl (ParseError (URL req) (ValueNotFloat64 (dp ! 0) err))) \<and>
    (\<forall>val err. length dp = 2 \<and> dp ! 0 \<noteq> '''' \<and> Float64 deps (dp ! 0) = Inr val \<and>
         Int64 deps (dp ! 1) = Inl err \<longrightarrow>
       buildData deps req (pre @ dp # post) dps0 =
         Inl (ParseError (URL req) (TimestampNotInt64 (dp ! 1) err))) \<and>
    (\<forall>val unixTS. length dp = 2 \<and> dp ! 0 \<noteq> '''' \<and> Float64 deps (dp ! 0) = Inr val \<and>
         Int64 deps (dp ! 1) = Inr unixTS \<longrightarrow>
       buildData deps req (pre @ dp # post) dps0 =
         buildData deps req post (dps(Unix unixTS 0 \<mapsto> val))) \<and>
    (\<forall>s formatTags els k. parseGraphiteResponse deps req s formatTags = Inr els \<and> k < length s \<longrightarrow>
       buildData deps req (Datapoints (s ! k)) Map.empty = Inr (Value (els ! k)))"
proof -
  have step: "buildData deps req (pre @ dp # post) dps0 = buildData deps req (dp # post) dps"
    using assms by (simp add: buildData_append)
  have "\<forall>s formatTags els k. parseGraphiteResponse deps req s formatTags = Inr els \<and> k < length s \<longrightarrow>
       buildData deps req (Datapoints (s ! k)) Map.empty = Inr (Value (els ! k))"
  proof (intro allI impI, elim conjE)
    fix s formatTags els k
    assume a: "parseGraphiteResponse deps req s formatTags = Inr els" and k: "k < length s"
    from a have "parseSeries deps req formatTags s {} [] = Inr els"
      by (simp add: parseGraphiteResponse_def split: if_splits)
    from parseSeries_nth [OF this k]
    show "buildData deps req (Datapoints (s ! k)) Map.empty = Inr (Value (els ! k))" by simp
  qed
  then show ?thesis unfolding step by simp
qed

text \<open>
  The theorem after the datapoint \<^verbatim>\<open>["1", "10"]\<close>, at a datapoint of each kind.
\<close>

theorem buildData_datapoint_witness:
  "buildData (sampleDeps []) req0 [[''1'', ''10'']] Map.empty = Inr [10000000000 \<mapsto> 1] \<and>
   buildData (sampleDeps []) req0 ([[''1'', ''10'']] @ [''2'', ''20'', ''30''] # [[''2'', ''20'']])
       Map.empty = Inl (ParseError None (DatapointFields [''2'', ''20'', ''30''])) \<and>
   buildData (sampleDeps []) req0 ([[''1'', ''10'']] @ ['''', ''x''] # [[''2'', ''20'']])
       Map.empty = Inr [10000000000 \<mapsto> 1, 20000000000 \<mapsto> 2] \<and>
   buildData (sampleDeps []) req0 ([[''1'', ''10'']] @ [''x'', ''20''] # [[''2'', ''20'']])
       Map.empty = Inl (ParseError None (ValueNotFloat64 ''x'' ''invalid syntax'')) \<and>
   buildData (sampleDeps []) req0 ([[''1'', ''10'']] @ [''2'', ''2.5''] # [[''2'', ''20'']])
       Map.empty = Inl (ParseError None (TimestampNotInt64 ''2.5'' ''invalid syntax'')) \<and>
   buildData (sampleDeps []) req0 ([[''1'', ''10'']] @ [''2.5'', ''20''] # [])
       Map.empty = Inr [10000000000 \<mapsto> 1, 20000000000 \<mapsto> 5 / 2] \<and>
   parseGraphiteResponse (sampleDeps []) req0
       [\<lparr>Datapoints = [[''1'', ''10''], ['''', ''x'']], Target = ''a''\<rparr>] [''''] =
     Inr [\<lparr>Value = [10000000000 \<mapsto> 1], Group = [''key'' \<mapsto> ''a'']\<rparr>]"
proof -
  let ?d = "sampleDeps []"
  have pre: "buildData ?d req0 [[''1'', ''10'']] Map.empty = Inr [10000000000 \<mapsto> 1]"
    by (simp add: sample_simps Unix_def)
  note inst = buildData_datapoint [OF pre]
  have 1: "buildData ?d req0 ([[''1'', ''10'']] @ [''2'', ''20'', ''30''] # [[''2'', ''20'']])
       Map.empty = Inl (ParseError (URL req0) (DatapointFields [''2'', ''20'', ''30'']))"
    using inst [of "[''2'', ''20'', ''30'']" "[[''2'', ''20'']]"] by simp
  have 2: "buildData ?d req0 ([[''1'', ''10'']] @ ['''', ''x''] # [[''2'', ''20'']]) Map.empty
       = buildData ?d req0 [[''2'', ''20'']] [10000000000 \<mapsto> 1]"
    using inst [of "['''', ''x'']" "[[''2'', ''20'']]"] by simp
  have f3: "Float64 ?d ''x'' = Inl ''invalid syntax''" by (simp add: sample_simps)
  have 3: "buildData ?d req0 ([[''1'', ''10'']] @ [''x'', ''20''] # [[''2'', ''20'']]) Map.empty
       = Inl (ParseError (URL req0) (ValueNotFloat64 ''x'' ''invalid syntax''))"
    using inst [of "[''x'', ''20'']" "[[''2'', ''20'']]"] f3 by simp
  have f4: "Float64 ?d ''2'' = Inr 2" "Int64 ?d ''2.5'' = Inl ''invalid syntax''"
    by (simp_all add: sample_simps)
  have 4: "buildData ?d req0 ([[''1'', ''10'']] @ [''2'', ''2.5''] # [[''2'', ''20'']]) Map.empty
       = Inl (ParseError (URL req0) (TimestampNotInt64 ''2.5'' ''invalid syntax''))"
    using inst [of "[''2'', ''2.5'']" "[[''2'', ''20'']]"] f4 by simp
  have f5: "Float64 ?d ''2.5'' = Inr (5 / 2)" "Int64 ?d ''20'' = Inr 20"
    by (simp_all add: sample_simps)
  have 5: "buildData ?d req0 ([[''1'', ''10'']] @ [''2.5'', ''20''] # []) Map.empty
       = buildData ?d req0 [] [10000000000 \<mapsto> 1, Unix 20 0 \<mapsto> 5 / 2]"
    using inst [of "[''2.5'', ''20'']" "[]"] f5 by simp
  let ?s = "[\<lparr>Datapoints = [[''1'', ''10''], ['''', ''x'']], Target = ''a''\<rparr>]"
  have p: "parseGraphiteResponse ?d req0 ?s [''''] =
     Inr [\<lparr>Value = [10000000000 \<mapsto> 1], Group = [''key'' \<mapsto> ''a'']\<rparr>]"
    by (simp add: parseGraphiteResponse_def buildTagSet_def sample_simps Unix_def)
  from pre 1 2 3 4 5 p show ?thesis by (simp add: sample_simps Unix_def)
qed

subsection \<open>The band orchestrator\<close>

text \<open>
  C1. A repeat count outside \<open>[1, 100]\<close> should fail with the validation error before any
  request is issued. The source assigns the error and does not return: with \<open>num = 0\<close>
  the loop has no window and the error stands (nothing is recorded or issued; the state
  is the initial one with the two variables \<^verbatim>\<open>now\<close> and \<^verbatim>\<open>st\<close> of before the loop),
  but with \<open>num = 101\<close> the loop runs, and the first window that succeeds overwrites the
  error. Against the sample backend the call with \<open>num = 101\<close> succeeds, has recorded
  101 requests and has given 101 requests to the backend.
\<close>

theorem Band_num_101:
  "Band (sampleDeps resp0) e0 ''q'' ''1h'' ''1h'' '''' (Finite 0) =
     (Inl (GraphiteBand NumOutOfBounds), e0\<lparr>Mem := [0, - 3600000000000]\<rparr>) \<and>
   fst (Band (sampleDeps resp0) e0 ''q'' ''1h'' ''1h'' '''' (Finite 101)) =
     Inr \<lparr>Elements = [\<lparr>Value = [10000000000 \<mapsto> 1], Group = [''key'' \<mapsto> ''a'']\<rparr>],
          IgnoreUnjoined = True, IgnoreOtherUnjoined = True\<rparr> \<and>
   length (GraphiteQueries
     (snd (Band (sampleDeps resp0) e0 ''q'' ''1h'' ''1h'' '''' (Finite 101)))) = 101 \<and>
   length (Cache (snd (Band (sampleDeps resp0) e0 ''q'' ''1h'' ''1h'' '''' (Finite 101)))) = 101"
proof -
  let ?D = "sampleDeps resp0"
  let ?B = "Band ?D e0 ''q'' ''1h'' ''1h'' '''' (Finite 101)"
  let ?h = "3600000000000 :: 64 word"
  let ?el = "\<lparr>Value = [10000000000 \<mapsto> (1::rat)], Group = [''key'' \<mapsto> ''a'']\<rparr>"
  let ?r0 = "\<lparr>Elements = [], IgnoreUnjoined = True, IgnoreOtherUnjoined = True\<rparr> :: rat ValueSet"
  let ?req = "\<lparr>Targets = [''q''], Start = Some (Suc (length (Mem e0))),
     End = Some (length (Mem e0)), URL = None\<rparr>"
  let ?e2 = "e0\<lparr>Mem := Mem e0 @ [Now e0, Add (Now e0) (- ?h)]\<rparr>"
  have zero: "Band ?D e0 ''q'' ''1h'' ''1h'' '''' (Finite 0) =
     (Inl (GraphiteBand NumOutOfBounds), e0\<lparr>Mem := [0, - 3600000000000]\<rparr>)"
    by (simp add: run_simps sample_simps)
  have d: "ParseDuration ?D ''1h'' = Inr ?h" by (simp add: sample_simps)
  have n: "toInt ?D (Finite 101) = 101" by (simp add: toInt_def)
  have "\<exists>e'. bandLoop ?D ?h ?h '''' (toInt ?D (Finite 101)) 0 (length (Mem e0)) ?req ?r0
      (Some NumOutOfBounds) ?e2 = (None, ?r0\<lparr>Elements := [?el]\<rparr>, e')"
    by (rule bandLoop_sample) (simp_all add: n)
  then obtain e' where loop: "bandLoop ?D ?h ?h '''' (toInt ?D (Finite 101)) 0
      (length (Mem e0)) ?req ?r0 (Some NumOutOfBounds) ?e2 =
      (None, ?r0\<lparr>Elements := [?el]\<rparr>, e')" ..
  have "bandLoop ?D ?h ?h '''' (toInt ?D (Finite 101)) 0 (length (Mem e0)) ?req ?r0
      (if flt (Finite 101) 1 \<or> fgt (Finite 101) 100 then Some NumOutOfBounds else None) ?e2 =
      (None, ?r0\<lparr>Elements := [?el]\<rparr>, e')"
    using loop by simp
  from Band_parsed [OF d d this]
  have B: "?B = (Inr (?r0\<lparr>Elements := [?el]\<rparr>), e')" by simp
  from Band_issued [where trace = "\<lambda>c. c", OF d d sample_trace B] obtain ws where
    R: "Cache e' = Cache e0 @ ws \<and>
     length ws \<le> nat (toInt ?D (Finite 101)) \<and>
     ((\<exists>r. Inr (?r0\<lparr>Elements := [?el]\<rparr>) = (Inr r :: error + rat ValueSet)) \<longrightarrow>
       length ws = nat (toInt ?D (Finite 101))) \<and>
     (\<forall>j<length ws.
        snapEnd (ws ! j) = Some (Now e0 + (int j + 1) * sint (- ?h)) \<and>
        snapStart (ws ! j) = Some (Now e0 + (int j + 1) * sint (- ?h) + sint (- ?h)) \<and>
        snapTargets (ws ! j) = [''q'']) \<and>
     length (GraphiteQueries e') = length (GraphiteQueries e0) + length ws" ..
  have len: "length ws = 101"
    using R [THEN conjunct2, THEN conjunct2, THEN conjunct1] by (simp add: n)
  have "length (Cache e') = 101"
    using R [THEN conjunct1] len by (simp add: e0_def)
  moreover have "length (GraphiteQueries e') = 101"
    using R [THEN conjunct2, THEN conjunct2, THEN conjunct2, THEN conjunct2] len
    by (simp add: e0_def)
  ultimately show ?thesis using zero B by simp
qed

text \<open>
  C2, as amended. With both durations parsed, a call of \<^verbatim>\<open>Band\<close> gives cache and
  backend at most \<open>int(num)\<close> requests, one for each iteration from the first, and all of
  them when it succeeds; \<open>trace\<close> is any record that cache and backend keep of what they
  read in the requests given to them, and any collaborators can be made to keep one
  without a change to the call (\<open>Band_traced\<close>). The
  window read at iteration \<open>i\<close> has its end instant one period before \<open>now\<close> when
  \<open>i = 0\<close>, and one period before the end instant of the window before it when \<open>i > 0\<close>;
  its start instant is its end instant minus the lookback. Minus a duration is \<^verbatim>\<open>Add\<close>
  of its 64-bit negation, as in the source: for every duration but the smallest it is
  the integer difference, so that the end instant is \<open>now - (i + 1) * P\<close>; the negation of
  the smallest duration, \<open>- 2 ^ 63\<close> nanoseconds, is that duration itself, so that the
  instant then moves back by \<open>2 ^ 63\<close> nanoseconds instead of forward.
\<close>

theorem Band_windows:
  assumes "ParseDuration deps duration = Inr d" and "ParseDuration deps period = Inr p"
    and "\<forall>c q. trace (snd (snd (Get deps c q))) = trace c @ [q]"
    and "Band deps e query duration period format num = (res, e')"
  shows "\<exists>ws. trace (Cache e') = trace (Cache e) @ ws \<and>
     length ws \<le> nat (toInt deps num) \<and>
     ((\<exists>r. res = Inr r) \<longrightarrow> length ws = nat (toInt deps num)) \<and>
     length (GraphiteQueries e') = length (GraphiteQueries e) + length ws \<and>
     (\<forall>i<length ws. \<exists>en.
        snapTargets (ws ! i) = [query] \<and>
        snapEnd (ws ! i) = Some en \<and> snapStart (ws ! i) = Some (Add en (- d)) \<and>
        (i = 0 \<longrightarrow> en = Add (Now e) (- p)) \<and>
        (0 < i \<longrightarrow> (\<exists>prev. snapEnd (ws ! (i - 1)) = Some prev \<and> en = Add prev (- p))) \<and>
        (p \<noteq> - (2 ^ 63) \<longrightarrow> en = Now e - (int i + 1) * sint p) \<and>
        (p = - (2 ^ 63) \<longrightarrow> en = Now e - (int i + 1) * 2 ^ 63) \<and>
        (d \<noteq> - (2 ^ 63) \<longrightarrow> Add en (- d) = en - sint d) \<and>
        (d = - (2 ^ 63) \<longrightarrow> Add en (- d) = en - 2 ^ 63))"
proof -
  from Band_issued [OF assms] obtain ws where
    R: "trace (Cache e') = trace (Cache e) @ ws \<and>
     length ws \<le> nat (toInt deps num) \<and>
     ((\<exists>r. res = Inr r) \<longrightarrow> length ws = nat (toInt deps num)) \<and>
     (\<forall>j<length ws.
        snapEnd (ws ! j) = Some (Now e + (int j + 1) * sint (- p)) \<and>
        snapStart (ws ! j) = Some (Now e + (int j + 1) * sint (- p) + sint (- d)) \<and>
        snapTargets (ws ! j) = [query]) \<and>
     length (GraphiteQueries e') = length (GraphiteQueries e) + length ws" ..
  note w = R [THEN conjunct2, THEN conjunct2, THEN conjunct2, THEN conjunct1]
  have win: "\<forall>i<length ws. \<exists>en.
        snapTargets (ws ! i) = [query] \<and>
        snapEnd (ws ! i) = Some en \<and> snapStart (ws ! i) = Some (Add en (- d)) \<and>
        (i = 0 \<longrightarrow> en = Add (Now e) (- p)) \<and>
        (0 < i \<longrightarrow> (\<exists>prev. snapEnd (ws ! (i - 1)) = Some prev \<and> en = Add prev (- p))) \<and>
        (p \<noteq> - (2 ^ 63) \<longrightarrow> en = Now e - (int i + 1) * sint p) \<and>
        (p = - (2 ^ 63) \<longrightarrow> en = Now e - (int i + 1) * 2 ^ 63) \<and>
        (d \<noteq> - (2 ^ 63) \<longrightarrow> Add en (- d) = en - sint d) \<and>
        (d = - (2 ^ 63) \<longrightarrow> Add en (- d) = en - 2 ^ 63)"
  proof (intro allI impI)
    fix i assume i: "i < length ws"
    let ?en = "Now e + (int i + 1) * sint (- p)"
    from w i have tg: "snapTargets (ws ! i) = [query]"
      and en: "snapEnd (ws ! i) = Some ?en"
      and st: "snapStart (ws ! i) = Some (Add ?en (- d))"
      by (simp_all add: Add_def)
    have first: "i = 0 \<longrightarrow> ?en = Add (Now e) (- p)" by (simp add: Add_def)
    have later: "0 < i \<longrightarrow> (\<exists>prev. snapEnd (ws ! (i - 1)) = Some prev \<and> ?en = Add prev (- p))"
    proof
      assume pos: "0 < i"
      with i have "i - 1 < length ws" by simp
      with w have "snapEnd (ws ! (i - 1)) = Some (Now e + (int (i - 1) + 1) * sint (- p))"
        by simp
      moreover from pos have "?en = Add (Now e + (int (i - 1) + 1) * sint (- p)) (- p)"
        by (simp add: Add_def algebra_simps of_nat_diff)
      ultimately show "\<exists>prev. snapEnd (ws ! (i - 1)) = Some prev \<and> ?en = Add prev (- p)"
        by (intro exI [of _ "Now e + (int (i - 1) + 1) * sint (- p)"] conjI)
    qed
    have p1: "p \<noteq> - (2 ^ 63) \<longrightarrow> ?en = Now e - (int i + 1) * sint p"
      by (simp add: sint_neg)
    have p2: "p = - (2 ^ 63) \<longrightarrow> ?en = Now e - (int i + 1) * 2 ^ 63"
      by (simp add: sint_neg_smallest)
    have d1: "d \<noteq> - (2 ^ 63) \<longrightarrow> Add ?en (- d) = ?en - sint d"
      by (simp add: Add_def sint_neg)
    have d2: "d = - (2 ^ 63) \<longrightarrow> Add ?en (- d) = ?en - 2 ^ 63"
      by (simp add: Add_def sint_neg_smallest)
    show "\<exists>en. snapTargets (ws ! i) = [query] \<and>
        snapEnd (ws ! i) = Some en \<and> snapStart (ws ! i) = Some (Add en (- d)) \<and>
        (i = 0 \<longrightarrow> en = Add (Now e) (- p)) \<and>
        (0 < i \<longrightarrow> (\<exists>prev. snapEnd (ws ! (i - 1)) = Some prev \<and> en = Add prev (- p))) \<and>
        (p \<noteq> - (2 ^ 63) \<longrightarrow> en = Now e - (int i + 1) * sint p) \<and>
        (p = - (2 ^ 63) \<longrightarrow> en = Now e - (int i + 1) * 2 ^ 63) \<and>
        (d \<noteq> - (2 ^ 63) \<longrightarrow> Add en (- d) = en - sint d) \<and>
        (d = - (2 ^ 63) \<longrightarrow> Add en (- d) = en - 2 ^ 63)"
      using tg en st first later p1 p2 d1 d2 by (intro exI [of _ ?en] conjI)
  qed
  show ?thesis
  proof (intro exI [of _ ws] conjI)
    show "trace (Cache e') = trace (Cache e) @ ws" by (rule R [THEN conjunct1])
    show "length ws \<le> nat (toInt deps num)" by (rule R [THEN conjunct2, THEN conjunct1])
    show "(\<exists>r. res = Inr r) \<longrightarrow> length ws = nat (toInt deps num)"
      by (rule R [THEN conjunct2, THEN conjunct2, THEN conjunct1])
    show "length (GraphiteQueries e') = length (GraphiteQueries e) + length ws"
      by (rule R [THEN conjunct2, THEN conjunct2, THEN conjunct2, THEN conjunct2])
    show "\<forall>i<length ws. \<exists>en.
        snapTargets (ws ! i) = [query] \<and>
        snapEnd (ws ! i) = Some en \<and> snapStart (ws ! i) = Some (Add en (- d)) \<and>
        (i = 0 \<longrightarrow> en = Add (Now e) (- p)) \<and>
        (0 < i \<longrightarrow> (\<exists>prev. snapEnd (ws ! (i - 1)) = Some prev \<and> en = Add prev (- p))) \<and>
        (p \<noteq> - (2 ^ 63) \<longrightarrow> en = Now e - (int i + 1) * sint p) \<and>
        (p = - (2 ^ 63) \<longrightarrow> en = Now e - (int i + 1) * 2 ^ 63) \<and>
        (d \<noteq> - (2 ^ 63) \<longrightarrow> Add en (- d) = en - sint d) \<and>
        (d = - (2 ^ 63) \<longrightarrow> Add en (- d) = en - 2 ^ 63)"
      by (rule win)
  qed
qed

text \<open>
  C2 as stated fails at the first window: with \<open>now = 0\<close>, a lookback of one hour and a
  period of two hours, the window that the backend reads at iteration 0 ends two hours
  before \<open>now\<close>, not at \<open>now\<close>.
\<close>

theorem Band_windows_counterexample:
  "Now e0 = 0 \<and>
   snapEnd (Cache (snd (Band (sampleDeps resp0) e0 ''q'' ''1h'' ''2h'' '''' (Finite 1))) ! 0) =
     Some (- 7200000000000) \<and>
   snapEnd (Cache (snd (Band (sampleDeps resp0) e0 ''q'' ''1h'' ''2h'' '''' (Finite 1))) ! 0) \<noteq>
     Some (Now e0)"
  by (simp add: Band_sample_1) (simp add: e0_def)

text \<open>
  The theorem at that call, where the sample backend has read one window, from three
  hours to two hours before \<open>now\<close>, and at a call whose period is the smallest duration,
  where the window that it has read ends \<open>2 ^ 63\<close> nanoseconds before \<open>now\<close>.
\<close>

theorem Band_windows_witness:
  "ParseDuration (sampleDeps resp0) ''1h'' = Inr 3600000000000 \<and>
   ParseDuration (sampleDeps resp0) ''2h'' = Inr 7200000000000 \<and>
   ParseDuration (sampleDeps resp0) ''-300y'' = Inr (- (2 ^ 63)) \<and>
   (\<forall>c q. snd (snd (Get (sampleDeps resp0) c q)) = c @ [q]) \<and>
   (\<exists>r. fst (Band (sampleDeps resp0) e0 ''q'' ''1h'' ''2h'' '''' (Finite 1)) = Inr r) \<and>
   (\<exists>ws. Cache (snd (Band (sampleDeps resp0) e0 ''q'' ''1h'' ''2h'' '''' (Finite 1))) =
        Cache e0 @ ws \<and> length ws = 1 \<and>
      snapTargets (ws ! 0) = [''q''] \<and>
      snapEnd (ws ! 0) = Some (Now e0 - 7200000000000) \<and>
      snapStart (ws ! 0) = Some (Now e0 - 7200000000000 - 3600000000000)) \<and>
   (\<exists>r. fst (Band (sampleDeps resp0) e0 ''q'' ''1h'' ''-300y'' '''' (Finite 1)) = Inr r) \<and>
   (\<exists>ws. Cache (snd (Band (sampleDeps resp0) e0 ''q'' ''1h'' ''-300y'' '''' (Finite 1))) =
        Cache e0 @ ws \<and> length ws = 1 \<and>
      snapTargets (ws ! 0) = [''q''] \<and>
      snapEnd (ws ! 0) = Some (Now e0 - 9223372036854775808) \<and>
      snapStart (ws ! 0) = Some (Now e0 - 9223372036854775808 - 3600000000000))"
proof -
  let ?D = "sampleDeps resp0"
  let ?d = "3600000000000 :: 64 word"
  have d: "ParseDuration ?D ''1h'' = Inr ?d"
    and p1: "ParseDuration ?D ''2h'' = Inr 7200000000000"
    and p2: "ParseDuration ?D ''-300y'' = Inr (- (2 ^ 63))"
    by (simp_all add: sample_simps)
  have n: "nat (toInt ?D (Finite 1)) = 1" by (simp add: toInt_def)
  have dn: "?d \<noteq> - (2 ^ 63)" by simp
  have gen: "\<exists>ws en. Cache (snd (Band ?D e0 ''q'' ''1h'' period '''' (Finite 1))) =
        Cache e0 @ ws \<and> length ws = 1 \<and>
      snapTargets (ws ! 0) = [''q''] \<and> snapEnd (ws ! 0) = Some en \<and>
      snapStart (ws ! 0) = Some (en - 3600000000000) \<and>
      (p \<noteq> - (2 ^ 63) \<longrightarrow> en = Now e0 - sint p) \<and>
      (p = - (2 ^ 63) \<longrightarrow> en = Now e0 - 2 ^ 63)"
    if p: "ParseDuration ?D period = Inr p"
      and ok: "\<exists>r. fst (Band ?D e0 ''q'' ''1h'' period '''' (Finite 1)) = Inr r"
    for period p
  proof -
    let ?B = "Band ?D e0 ''q'' ''1h'' period '''' (Finite 1)"
    have b: "?B = (fst ?B, snd ?B)" by simp
    from Band_windows [where trace = "\<lambda>c. c", OF d p sample_trace b] obtain ws where
      R: "Cache (snd ?B) = Cache e0 @ ws \<and>
       length ws \<le> nat (toInt ?D (Finite 1)) \<and>
       ((\<exists>r. fst ?B = Inr r) \<longrightarrow> length ws = nat (toInt ?D (Finite 1))) \<and>
       length (GraphiteQueries (snd ?B)) = length (GraphiteQueries e0) + length ws \<and>
       (\<forall>i<length ws. \<exists>en.
          snapTargets (ws ! i) = [''q''] \<and>
          snapEnd (ws ! i) = Some en \<and> snapStart (ws ! i) = Some (Add en (- ?d)) \<and>
          (i = 0 \<longrightarrow> en = Add (Now e0) (- p)) \<and>
          (0 < i \<longrightarrow> (\<exists>prev. snapEnd (ws ! (i - 1)) = Some prev \<and> en = Add prev (- p))) \<and>
          (p \<noteq> - (2 ^ 63) \<longrightarrow> en = Now e0 - (int i + 1) * sint p) \<and>
          (p = - (2 ^ 63) \<longrightarrow> en = Now e0 - (int i + 1) * 2 ^ 63) \<and>
          (?d \<noteq> - (2 ^ 63) \<longrightarrow> Add en (- ?d) = en - sint ?d) \<and>
          (?d = - (2 ^ 63) \<longrightarrow> Add en (- ?d) = en - 2 ^ 63))" ..
    note c = R [THEN conjunct1]
    from R [THEN conjunct2, THEN conjunct2, THEN conjunct1] ok n
    have len: "length ws = 1" by simp
    then have "0 < length ws" by simp
    with R [THEN conjunct2, THEN conjunct2, THEN conjunct2, THEN conjunct2] obtain en where
      E: "snapTargets (ws ! 0) = [''q''] \<and>
          snapEnd (ws ! 0) = Some en \<and> snapStart (ws ! 0) = Some (Add en (- ?d)) \<and>
          (0 = (0::nat) \<longrightarrow> en = Add (Now e0) (- p)) \<and>
          (0 < (0::nat) \<longrightarrow> (\<exists>prev. snapEnd (ws ! (0 - 1)) = Some prev \<and> en = Add prev (- p))) \<and>
          (p \<noteq> - (2 ^ 63) \<longrightarrow> en = Now e0 - (int 0 + 1) * sint p) \<and>
          (p = - (2 ^ 63) \<longrightarrow> en = Now e0 - (int 0 + 1) * 2 ^ 63) \<and>
          (?d \<noteq> - (2 ^ 63) \<longrightarrow> Add en (- ?d) = en - sint ?d) \<and>
          (?d = - (2 ^ 63) \<longrightarrow> Add en (- ?d) = en - 2 ^ 63)"
      by blast
    note tg = E [THEN conjunct1]
    note en = E [THEN conjunct2, THEN conjunct1]
    note st = E [THEN conjunct2, THEN conjunct2, THEN conjunct1]
    from E [THEN conjunct2, THEN conjunct2, THEN conjunct2, THEN conjunct2, THEN conjunct2,
        THEN conjunct1]
    have e1: "p \<noteq> - (2 ^ 63) \<longrightarrow> en = Now e0 - sint p" by simp
    from E [THEN conjunct2, THEN conjunct2, THEN conjunct2, THEN conjunct2, THEN conjunct2,
        THEN conjunct2, THEN conjunct1]
    have e2: "p = - (2 ^ 63) \<longrightarrow> en = Now e0 - 2 ^ 63" by simp
    from E [THEN conjunct2, THEN conjunct2, THEN conjunct2, THEN conjunct2, THEN conjunct2,
        THEN conjunct2, THEN conjunct2, THEN conjunct1] dn
    have "Add en (- ?d) = en - 3600000000000" by simp
    with st have st': "snapStart (ws ! 0) = Some (en - 3600000000000)" by simp
    from c len tg en st' e1 e2 show ?thesis
      by (intro exI [of _ ws] exI [of _ en] conjI)
  qed
  let ?B1 = "Band ?D e0 ''q'' ''1h'' ''2h'' '''' (Finite 1)"
  let ?B2 = "Band ?D e0 ''q'' ''1h'' ''-300y'' '''' (Finite 1)"
  have ok1: "\<exists>r. fst ?B1 = Inr r" by (simp add: Band_sample_1)
  have ok2: "\<exists>r. fst ?B2 = Inr r" by (simp add: run_simps sample_simps)
  from gen [OF p1 ok1] obtain ws en where
    A: "Cache (snd ?B1) = Cache e0 @ ws \<and> length ws = 1 \<and>
      snapTargets (ws ! 0) = [''q''] \<and> snapEnd (ws ! 0) = Some en \<and>
      snapStart (ws ! 0) = Some (en - 3600000000000) \<and>
      ((7200000000000 :: 64 word) \<noteq> - (2 ^ 63) \<longrightarrow>
         en = Now e0 - sint (7200000000000 :: 64 word)) \<and>
      ((7200000000000 :: 64 word) = - (2 ^ 63) \<longrightarrow> en = Now e0 - 2 ^ 63)"
    by blast
  then have "en = Now e0 - 7200000000000" by simp
  with A have "Cache (snd ?B1) = Cache e0 @ ws \<and> length ws = 1 \<and>
      snapTargets (ws ! 0) = [''q''] \<and>
      snapEnd (ws ! 0) = Some (Now e0 - 7200000000000) \<and>
      snapStart (ws ! 0) = Some (Now e0 - 7200000000000 - 3600000000000)"
    by simp
  then have w1: "\<exists>ws. Cache (snd ?B1) = Cache e0 @ ws \<and> length ws = 1 \<and>
      snapTargets (ws ! 0) = [''q''] \<and>
      snapEnd (ws ! 0) = Some (Now e0 - 7200000000000) \<and>
      snapStart (ws ! 0) = Some (Now e0 - 7200000000000 - 3600000000000)" ..
  from gen [OF p2 ok2] obtain ws en where
    A: "Cache (snd ?B2) = Cache e0 @ ws \<and> length ws = 1 \<and>
      snapTargets (ws ! 0) = [''q''] \<and> snapEnd (ws ! 0) = Some en \<and>
      snapStart (ws ! 0) = Some (en - 3600000000000) \<and>
      ((- (2 ^ 63) :: 64 word) \<noteq> - (2 ^ 63) \<longrightarrow>
         en = Now e0 - sint (- (2 ^ 63) :: 64 word)) \<and>
      ((- (2 ^ 63) :: 64 word) = - (2 ^ 63) \<longrightarrow> en = Now e0 - 2 ^ 63)"
    by blast
  then have "en = Now e0 - 9223372036854775808" by simp
  with A have "Cache (snd ?B2) = Cache e0 @ ws \<and> length ws = 1 \<and>
      snapTargets (ws ! 0) = [''q''] \<and>
      snapEnd (ws ! 0) = Some (Now e0 - 9223372036854775808) \<and>
      snapStart (ws ! 0) = Some (Now e0 - 9223372036854775808 - 3600000000000)"
    by simp
  then have w2: "\<exists>ws. Cache (snd ?B2) = Cache e0 @ ws \<and> length ws = 1 \<and>
      snapTargets (ws ! 0) = [''q''] \<and>
      snapEnd (ws ! 0) = Some (Now e0 - 9223372036854775808) \<and>
      snapStart (ws ! 0) = Some (Now e0 - 9223372036854775808 - 3600000000000)" ..
  from d p1 p2 sample_trace [of resp0] ok1 w1 ok2 w2 show ?thesis by (intro conjI)
qed

text \<open>
  C3. With \<open>num = 3\<close> and a lookback and a period of one hour (3600000000000
  nanoseconds), the windows a call of \<^verbatim>\<open>Band\<close> executes are, in order,
  \<open>[now - 2h, now - 1h]\<close>, \<open>[now - 3h, now - 2h]\<close> and \<open>[now - 4h, now - 3h]\<close>: what cache
  and backend read in the requests given to them during the call are the first \<open>k\<close> of
  these three windows, and all three when the call succeeds. As in C2, \<open>trace\<close> is any
  record that cache and backend keep of what they read.
\<close>

theorem Band_three_windows:
  assumes "ParseDuration deps duration = Inr 3600000000000"
    and "ParseDuration deps period = Inr 3600000000000"
    and "\<forall>c q. trace (snd (snd (Get deps c q))) = trace c @ [q]"
    and "Band deps e query duration period format (Finite 3) = (res, e')"
  shows "\<exists>k\<le>3.
     take (length (trace (Cache e))) (trace (Cache e')) = trace (Cache e) \<and>
     map (\<lambda>w. (snapTargets w, snapStart w, snapEnd w))
         (drop (length (trace (Cache e))) (trace (Cache e'))) =
       take k [([query], Some (Now e - 7200000000000), Some (Now e - 3600000000000)),
               ([query], Some (Now e - 10800000000000), Some (Now e - 7200000000000)),
               ([query], Some (Now e - 14400000000000), Some (Now e - 10800000000000))] \<and>
     ((\<exists>r. res = Inr r) \<longrightarrow> k = 3)"
proof -
  let ?h = "3600000000000 :: 64 word"
  let ?W = "[([query], Some (Now e - 7200000000000), Some (Now e - 3600000000000)),
             ([query], Some (Now e - 10800000000000), Some (Now e - 7200000000000)),
             ([query], Some (Now e - 14400000000000), Some (Now e - 10800000000000))]"
  let ?f = "\<lambda>w. (snapTargets w, snapStart w, snapEnd w)"
  from Band_issued [OF assms] obtain ws where
    R: "trace (Cache e') = trace (Cache e) @ ws \<and>
     length ws \<le> nat (toInt deps (Finite 3)) \<and>
     ((\<exists>r. res = Inr r) \<longrightarrow> length ws = nat (toInt deps (Finite 3))) \<and>
     (\<forall>j<length ws.
        snapEnd (ws ! j) = Some (Now e + (int j + 1) * sint (- ?h)) \<and>
        snapStart (ws ! j) = Some (Now e + (int j + 1) * sint (- ?h) + sint (- ?h)) \<and>
        snapTargets (ws ! j) = [query]) \<and>
     length (GraphiteQueries e') = length (GraphiteQueries e) + length ws" ..
  note q = R [THEN conjunct1]
  have three: "nat (toInt deps (Finite 3)) = 3" by (simp add: toInt_def)
  from R [THEN conjunct2, THEN conjunct1] three have l: "length ws \<le> 3" by simp
  from R [THEN conjunct2, THEN conjunct2, THEN conjunct1] three
  have a: "(\<exists>r. res = Inr r) \<longrightarrow> length ws = 3" by simp
  have h: "sint (- ?h) = - 3600000000000" by simp
  have w: "\<forall>j<length ws.
        snapEnd (ws ! j) = Some (Now e - (int j + 1) * 3600000000000) \<and>
        snapStart (ws ! j) = Some (Now e - (int j + 1) * 3600000000000 - 3600000000000) \<and>
        snapTargets (ws ! j) = [query]"
    using R [THEN conjunct2, THEN conjunct2, THEN conjunct2, THEN conjunct1]
    unfolding h by simp
  have m: "map ?f ws = take (length ws) ?W"
  proof (rule nth_equalityI)
    show "length (map ?f ws) = length (take (length ws) ?W)"
      using l by simp
  next
    fix j assume "j < length (map ?f ws)"
    then have j: "j < length ws" by simp
    with l have "j = 0 \<or> j = 1 \<or> j = 2" by arith
    moreover from w j have "snapEnd (ws ! j) = Some (Now e - (int j + 1) * 3600000000000)"
      "snapStart (ws ! j) = Some (Now e - (int j + 1) * 3600000000000 - 3600000000000)"
      "snapTargets (ws ! j) = [query]"
      by simp_all
    ultimately show "map ?f ws ! j = take (length ws) ?W ! j"
      using j by auto
  qed
  show ?thesis
  proof (intro exI [of _ "length ws"] conjI)
    show "length ws \<le> 3" by (rule l)
    show "take (length (trace (Cache e))) (trace (Cache e')) = trace (Cache e)"
      using q by simp
    show "map ?f (drop (length (trace (Cache e))) (trace (Cache e'))) =
       take (length ws) ?W"
      using q m by simp
    show "(\<exists>r. res = Inr r) \<longrightarrow> length ws = 3" by (rule a)
  qed
qed

text \<open>
  The theorem at a call that succeeds, with \<open>now = 0\<close>: the sample backend has read the
  three windows. The three requests that the call has recorded in \<^verbatim>\<open>GraphiteQueries\<close>,
  read after the call, each show the start instant of their window, and all show the
  end instant of the last window, three hours before \<open>now\<close>, since they share the
  variable \<^verbatim>\<open>now\<close>.
\<close>

theorem Band_three_windows_witness:
  "ParseDuration (sampleDeps resp0) ''1h'' = Inr 3600000000000 \<and>
   (\<forall>c q. snd (snd (Get (sampleDeps resp0) c q)) = c @ [q]) \<and>
   (\<exists>r. fst (Band (sampleDeps resp0) e0 ''q'' ''1h'' ''1h'' '''' (Finite 3)) = Inr r) \<and>
   map (\<lambda>w. (snapTargets w, snapStart w, snapEnd w))
     (Cache (snd (Band (sampleDeps resp0) e0 ''q'' ''1h'' ''1h'' '''' (Finite 3)))) =
     [([''q''], Some (- 7200000000000), Some (- 3600000000000)),
      ([''q''], Some (- 10800000000000), Some (- 7200000000000)),
      ([''q''], Some (- 14400000000000), Some (- 10800000000000))] \<and>
   map (\<lambda>q. (snapStart q, snapEnd q))
     (map (snapshot (snd (Band (sampleDeps resp0) e0 ''q'' ''1h'' ''1h'' '''' (Finite 3))))
        (GraphiteQueries (snd (Band (sampleDeps resp0) e0 ''q'' ''1h'' ''1h'' '''' (Finite 3))))) =
     [(Some (- 7200000000000), Some (- 10800000000000)),
      (Some (- 10800000000000), Some (- 10800000000000)),
      (Some (- 14400000000000), Some (- 10800000000000))]"
proof -
  let ?D = "sampleDeps resp0"
  let ?B = "Band ?D e0 ''q'' ''1h'' ''1h'' '''' (Finite 3)"
  let ?f = "\<lambda>w. (snapTargets w, snapStart w, snapEnd w)"
  have d: "ParseDuration ?D ''1h'' = Inr 3600000000000"
    by (simp add: sample_simps)
  have b: "?B = (fst ?B, snd ?B)" by simp
  have ok: "\<exists>r. fst ?B = Inr r" by (simp add: Band_sample_3)
  from Band_three_windows [where trace = "\<lambda>c. c", OF d d sample_trace b] obtain k where
    K: "k \<le> 3 \<and>
     take (length (Cache e0)) (Cache (snd ?B)) = Cache e0 \<and>
     map ?f (drop (length (Cache e0)) (Cache (snd ?B))) =
       take k [([''q''], Some (Now e0 - 7200000000000), Some (Now e0 - 3600000000000)),
               ([''q''], Some (Now e0 - 10800000000000), Some (Now e0 - 7200000000000)),
               ([''q''], Some (Now e0 - 14400000000000), Some (Now e0 - 10800000000000))] \<and>
     ((\<exists>r. fst ?B = Inr r) \<longrightarrow> k = 3)" ..
  with ok have "k = 3" by simp
  with K have "map ?f (drop (length (Cache e0)) (Cache (snd ?B))) =
       [([''q''], Some (Now e0 - 7200000000000), Some (Now e0 - 3600000000000)),
        ([''q''], Some (Now e0 - 10800000000000), Some (Now e0 - 7200000000000)),
        ([''q''], Some (Now e0 - 14400000000000), Some (Now e0 - 10800000000000))]"
    by simp
  then have issued: "map ?f (Cache (snd ?B)) =
     [([''q''], Some (- 7200000000000), Some (- 3600000000000)),
      ([''q''], Some (- 10800000000000), Some (- 7200000000000)),
      ([''q''], Some (- 14400000000000), Some (- 10800000000000))]"
    by (simp add: e0_def)
  have recorded: "map (\<lambda>q. (snapStart q, snapEnd q))
     (map (snapshot (snd ?B)) (GraphiteQueries (snd ?B))) =
     [(Some (- 7200000000000), Some (- 10800000000000)),
      (Some (- 10800000000000), Some (- 10800000000000)),
      (Some (- 14400000000000), Some (- 10800000000000))]"
    by (simp add: Band_sample_3 snapshot_def load_def)
  from d sample_trace [of resp0] ok issued recorded show ?thesis by (intro conjI)
qed

text \<open>
  C8. Merging one decoded element into the accumulated result set: when no element of
  the set has the group of the decoded one, the decoded element is appended; otherwise,
  at the first position \<open>j\<close> whose element has that group, the series of the decoded
  element is written over the series of that element, so that the timestamps of the
  merged series are those of both, a timestamp of the decoded element carries its value,
  and every other timestamp keeps the value it had. In the loop of \<^verbatim>\<open>Band\<close>, a window
  with \<open>i > 0\<close> that is answered and decoded merges its elements this way, in decode
  order, before the next window; what cache and backend read in its request is the
  window that ends one period before the value of \<^verbatim>\<open>now\<close>.
\<close>

theorem mergeResult_by_tagset:
  "((\<forall>k<length (Elements r). Group (Elements r ! k) \<noteq> Group result) \<longrightarrow>
      mergeResult r result = r\<lparr>Elements := Elements r @ [result]\<rparr>) \<and>
   (\<forall>j. j < length (Elements r) \<and> Group (Elements r ! j) = Group result \<and>
        (\<forall>k<j. Group (Elements r ! k) \<noteq> Group result) \<longrightarrow>
      mergeResult r result =
        r\<lparr>Elements := (Elements r)
             [j := (Elements r ! j)\<lparr>Value := Value (Elements r ! j) ++ Value result\<rparr>]\<rparr> \<and>
      dom (Value (Elements r ! j) ++ Value result) =
        dom (Value (Elements r ! j)) \<union> dom (Value result) \<and>
      (\<forall>t v. Value result t = Some v \<longrightarrow>
         (Value (Elements r ! j) ++ Value result) t = Some v) \<and>
      (\<forall>t. Value result t = None \<longrightarrow>
         (Value (Elements r ! j) ++ Value result) t = Value (Elements r ! j) t)) \<and>
   (\<forall>s req2 e2 req3 e3 results.
      0 < i \<and> i < n \<and>
      nextWindow e d p now req = (req2, e2) \<and>
      timeRequest deps e2 req2 = (Inr s, req3, e3) \<and>
      parseGraphiteResponse deps req3 s (Split format CHR ''.'') = Inr results \<longrightarrow>
      bandLoop deps d p format n i now req r err e =
        bandLoop deps d p format n (i + 1) now req3
          (foldl mergeResult r results) None e3 \<and>
      (now < length (Mem e) \<longrightarrow>
         snapshot e2 req2 =
           \<lparr>snapTargets = Targets req,
            snapStart = Some (Add (Add (load e now) (- p)) (- d)),
            snapEnd = Some (Add (load e now) (- p)), snapURL = URL req\<rparr>))"
proof (intro conjI allI impI)
  assume "\<forall>k<length (Elements r). Group (Elements r ! k) \<noteq> Group result"
  from findExisting_None [OF this, of 0]
  show "mergeResult r result = r\<lparr>Elements := Elements r @ [result]\<rparr>"
    by (cases result) (simp add: mergeResult_def Append_def Let_def map_add_idem)
next
  fix j
  assume a: "j < length (Elements r) \<and> Group (Elements r ! j) = Group result \<and>
        (\<forall>k<j. Group (Elements r ! k) \<noteq> Group result)"
  then have "findExisting result (Elements r) 0 = Some (0 + j)"
    by (intro findExisting_first) simp_all
  then show "mergeResult r result =
        r\<lparr>Elements := (Elements r)
             [j := (Elements r ! j)\<lparr>Value := Value (Elements r ! j) ++ Value result\<rparr>]\<rparr>"
    by (simp add: mergeResult_def Let_def)
next
  fix j
  show "dom (Value (Elements r ! j) ++ Value result) =
        dom (Value (Elements r ! j)) \<union> dom (Value result)"
    by auto
next
  fix j t v
  assume "Value result t = Some v"
  then show "(Value (Elements r ! j) ++ Value result) t = Some v" by simp
next
  fix j t
  assume "Value result t = None"
  then show "(Value (Elements r ! j) ++ Value result) t = Value (Elements r ! j) t"
    by (simp add: map_add_def)
next
  fix s req2 e2 req3 e3 results
  assume a: "0 < i \<and> i < n \<and>
      nextWindow e d p now req = (req2, e2) \<and>
      timeRequest deps e2 req2 = (Inr s, req3, e3) \<and>
      parseGraphiteResponse deps req3 s (Split format CHR ''.'') = Inr results"
  then have lt: "i < n" and nw: "nextWindow e d p now req = (req2, e2)"
    and tr: "timeRequest deps e2 req2 = (Inr s, req3, e3)" by simp_all
  from bandLoop_step [OF lt nw tr, of format r err] a
  show "bandLoop deps d p format n i now req r err e =
        bandLoop deps d p format n (i + 1) now req3
          (foldl mergeResult r results) None e3"
    by simp
next
  fix s req2 e2 req3 e3 results
  assume "0 < i \<and> i < n \<and>
      nextWindow e d p now req = (req2, e2) \<and>
      timeRequest deps e2 req2 = (Inr s, req3, e3) \<and>
      parseGraphiteResponse deps req3 s (Split format CHR ''.'') = Inr results"
  then have nw: "nextWindow e d p now req = (req2, e2)" by simp
  assume "now < length (Mem e)"
  from nextWindow_effect(1) [OF this nw]
  show "snapshot e2 req2 =
           \<lparr>snapTargets = Targets req,
            snapStart = Some (Add (Add (load e now) (- p)) (- d)),
            snapEnd = Some (Add (load e now) (- p)), snapURL = URL req\<rparr>" .
qed

text \<open>
  The theorem at a result set of one element: an element of another group, an element of
  the same group with one timestamp in common, and window 1 of a loop of two windows,
  from a state in which the variable \<^verbatim>\<open>now\<close> is the cell 0 and holds the instant 0.
\<close>

theorem mergeResult_by_tagset_witness:
  "mergeResult
     \<lparr>Elements = [\<lparr>Value = [10 \<mapsto> 1, 20 \<mapsto> 2], Group = [''host'' \<mapsto> ''web1'']\<rparr>],
      IgnoreUnjoined = True, IgnoreOtherUnjoined = True\<rparr>
     \<lparr>Value = [20 \<mapsto> 5], Group = [''host'' \<mapsto> ''web2'']\<rparr> =
   \<lparr>Elements = [\<lparr>Value = [10 \<mapsto> 1, 20 \<mapsto> 2], Group = [''host'' \<mapsto> ''web1'']\<rparr>,
                \<lparr>Value = [20 \<mapsto> (5::rat)], Group = [''host'' \<mapsto> ''web2'']\<rparr>],
      IgnoreUnjoined = True, IgnoreOtherUnjoined = True\<rparr> \<and>
   mergeResult
     \<lparr>Elements = [\<lparr>Value = [10 \<mapsto> 1, 20 \<mapsto> 2], Group = [''host'' \<mapsto> ''web1'']\<rparr>],
      IgnoreUnjoined = True, IgnoreOtherUnjoined = True\<rparr>
     \<lparr>Value = [20 \<mapsto> 5, 30 \<mapsto> 7], Group = [''host'' \<mapsto> ''web1'']\<rparr> =
   \<lparr>Elements = [\<lparr>Value = [10 \<mapsto> 1, 20 \<mapsto> 5, 30 \<mapsto> (7::rat)],
                 Group = [''host'' \<mapsto> ''web1'']\<rparr>],
      IgnoreUnjoined = True, IgnoreOtherUnjoined = True\<rparr> \<and>
   bandLoop (sampleDeps resp0) 3600000000000 3600000000000 '''' 2 1 0 req0
     \<lparr>Elements = [\<lparr>Value = [10000000000 \<mapsto> 1], Group = [''key'' \<mapsto> ''a'']\<rparr>],
      IgnoreUnjoined = True, IgnoreOtherUnjoined = True\<rparr> None (e0\<lparr>Mem := [0]\<rparr>) =
   (None,
    \<lparr>Elements = [\<lparr>Value = [10000000000 \<mapsto> 1], Group = [''key'' \<mapsto> ''a'']\<rparr>],
      IgnoreUnjoined = True, IgnoreOtherUnjoined = True\<rparr>,
    \<lparr>Now = 0,
     GraphiteQueries = [\<lparr>Targets = [''q''], Start = Some 1, End = Some 0, URL = None\<rparr>],
     Cache = [\<lparr>snapTargets = [''q''], snapStart = Some (- 7200000000000),
               snapEnd = Some (- 3600000000000), snapURL = None\<rparr>],
     Mem = [- 3600000000000, - 7200000000000]\<rparr>)"
proof -
  let ?a = "\<lparr>Value = [10 \<mapsto> 1, 20 \<mapsto> (2::rat)], Group = [''host'' \<mapsto> ''web1'']\<rparr>"
  let ?r = "\<lparr>Elements = [?a], IgnoreUnjoined = True, IgnoreOtherUnjoined = True\<rparr>"
  let ?new = "\<lparr>Value = [20 \<mapsto> (5::rat)], Group = [''host'' \<mapsto> ''web2'']\<rparr>"
  let ?same = "\<lparr>Value = [20 \<mapsto> 5, 30 \<mapsto> (7::rat)], Group = [''host'' \<mapsto> ''web1'']\<rparr>"
  let ?el = "\<lparr>Value = [10000000000 \<mapsto> (1::rat)], Group = [''key'' \<mapsto> ''a'']\<rparr>"
  let ?rs = "\<lparr>Elements = [?el], IgnoreUnjoined = True, IgnoreOtherUnjoined = True\<rparr>"
  let ?h = "3600000000000 :: 64 word"
  let ?D = "sampleDeps resp0"
  let ?e = "e0\<lparr>Mem := [0]\<rparr>"
  have ne: "[''host'' \<mapsto> ''web1''] \<noteq> [''host'' \<mapsto> ''web2'']"
    by (rule map_neqI [of _ "''host''"]) simp
  have none: "\<forall>k<length (Elements ?r). Group (Elements ?r ! k) \<noteq> Group ?new"
    using ne by simp
  from mergeResult_by_tagset [where r = ?r and result = ?new] none
  have 1: "mergeResult ?r ?new = ?r\<lparr>Elements := Elements ?r @ [?new]\<rparr>" by blast
  have some: "0 < length (Elements ?r) \<and> Group (Elements ?r ! 0) = Group ?same \<and>
     (\<forall>k<0. Group (Elements ?r ! k) \<noteq> Group ?same)"
    by simp
  from mergeResult_by_tagset [where r = ?r and result = ?same] some
  have 2: "mergeResult ?r ?same = ?r\<lparr>Elements := (Elements ?r)
     [0 := (Elements ?r ! 0)\<lparr>Value := Value (Elements ?r ! 0) ++ Value ?same\<rparr>]\<rparr>"
    by blast
  have m: "[10 \<mapsto> 1, 20 \<mapsto> (2::rat)] ++ [20 \<mapsto> 5, 30 \<mapsto> 7] =
     [10 \<mapsto> 1, 20 \<mapsto> 5, 30 \<mapsto> (7::rat)]"
    by (auto simp: fun_eq_iff map_add_def)
  let ?req2 = "\<lparr>Targets = [''q''], Start = Some 1, End = Some 0, URL = None\<rparr>"
  let ?e2 = "\<lparr>Now = 0, GraphiteQueries = [], Cache = [],
     Mem = [- 3600000000000, - 7200000000000]\<rparr> :: Snapshot list State"
  let ?req3 = "?req2\<lparr>URL := Some ''http://graphite/render''\<rparr>"
  let ?w = "\<lparr>snapTargets = [''q''], snapStart = Some (- 7200000000000),
     snapEnd = Some (- 3600000000000), snapURL = None\<rparr>"
  let ?e3 = "?e2\<lparr>GraphiteQueries := [?req2], Cache := [?w]\<rparr>"
  have nw: "nextWindow ?e ?h ?h 0 req0 = (?req2, ?e2)"
    by (simp add: nextWindow_def alloc_def store_def load_def Add_def Let_def req0_def e0_def)
  have tr: "timeRequest ?D ?e2 ?req2 = (Inr resp0, ?req3, ?e3)"
    by (simp add: timeRequest_def sampleDeps_def snapshot_def load_def)
  have pa: "parseGraphiteResponse ?D ?req3 resp0 (Split '''' CHR ''.'') = Inr [?el]"
    by (simp add: parse_sample)
  from nw tr pa have step: "(0::int) < 1 \<and> (1::int) < 2 \<and>
     nextWindow ?e ?h ?h 0 req0 = (?req2, ?e2) \<and>
     timeRequest ?D ?e2 ?req2 = (Inr resp0, ?req3, ?e3) \<and>
     parseGraphiteResponse ?D ?req3 resp0 (Split '''' CHR ''.'') = Inr [?el]"
    by (intro conjI) simp_all
  from mergeResult_by_tagset [where r = ?rs and i = 1 and n = 2 and deps = ?D
      and e = ?e and req = req0 and now = 0 and p = ?h and d = ?h and format = "''''"
      and err = None] step
  have 3: "bandLoop ?D ?h ?h '''' 2 1 0 req0 ?rs None ?e =
     bandLoop ?D ?h ?h '''' 2 (1 + 1) 0 ?req3 (foldl mergeResult ?rs [?el]) None ?e3"
    by blast
  have 4: "bandLoop ?D ?h ?h '''' 2 (1 + 1) 0 ?req3
       (foldl mergeResult ?rs [?el]) None ?e3 = (None, foldl mergeResult ?rs [?el], ?e3)"
    by (rule bandLoop_done) simp
  have 5: "foldl mergeResult ?rs [?el] = ?rs" by (rule merge_sample) simp
  from 1 2 m 3 4 5 show ?thesis by simp
qed

subsection \<open>The single-window query\<close>

text \<open>
  C9, as amended. With the lookback parsed, and the end offset either empty (then zero)
  or parsed, a call of \<^verbatim>\<open>Query\<close> builds exactly one request: it gives cache and backend
  one request, in which they read the targets and the window from \<open>now\<close> minus the
  lookback to \<open>now\<close> minus the end offset, and it records that request, which shows the
  same window when it is read after the call. As in C2, \<open>trace\<close> is any record that
  cache and backend keep of what they read, and any collaborators can be made to keep
  one without a change to the call (\<open>Query_traced\<close>). Minus a duration is \<^verbatim>\<open>Add\<close> of
  its 64-bit negation, as in the source: it is the integer difference for every duration but the
  smallest, \<open>- 2 ^ 63\<close> nanoseconds, whose negation is that duration itself, so that the
  instant is then \<open>2 ^ 63\<close> nanoseconds before \<open>now\<close> instead of after it. When the call
  succeeds, its elements are the decoder's output for the answer: one element for each
  series, in the order of the series, with that series' tag set and data.
\<close>

theorem Query_single_window:
  assumes "ParseDuration deps sduration = Inr sd"
    and "eduration = '''' \<and> ed = 0 \<or> eduration \<noteq> '''' \<and> ParseDuration deps eduration = Inr ed"
    and "\<forall>c q. trace (snd (snd (Get deps c q))) = trace c @ [q]"
    and "Query deps e query sduration eduration format = (res, e')"
  shows "let req = \<lparr>Targets = [query], Start = Some (length (Mem e)),
                    End = Some (Suc (length (Mem e))), URL = None\<rparr>;
             w = \<lparr>snapTargets = [query], snapStart = Some (Add (Now e) (- sd)),
                  snapEnd = Some (Add (Now e) (- ed)), snapURL = None\<rparr>
     in trace (Cache e') = trace (Cache e) @ [w] \<and>
        GraphiteQueries e' = GraphiteQueries e @ [req] \<and>
        snapshot e' req = w \<and>
        (sd \<noteq> - (2 ^ 63) \<longrightarrow> Add (Now e) (- sd) = Now e - sint sd) \<and>
        (sd = - (2 ^ 63) \<longrightarrow> Add (Now e) (- sd) = Now e - 2 ^ 63) \<and>
        (ed \<noteq> - (2 ^ 63) \<longrightarrow> Add (Now e) (- ed) = Now e - sint ed) \<and>
        (ed = - (2 ^ 63) \<longrightarrow> Add (Now e) (- ed) = Now e - 2 ^ 63) \<and>
        (\<forall>r. res = Inr r \<longrightarrow>
           (\<exists>s req1 e1.
              timeRequest deps
                (e\<lparr>Mem := Mem e @ [Add (Now e) (- sd), Add (Now e) (- ed)]\<rparr>) req =
                (Inr s, req1, e1) \<and>
              parseGraphiteResponse deps req1 s (Split format CHR ''.'') = Inr (Elements r) \<and>
              length (Elements r) = length s \<and>
              (\<forall>k<length s.
                 buildTagSet req1 (Split format CHR ''.'') (s ! k) =
                   Inr (Group (Elements r ! k)) \<and>
                 buildData deps req1 (Datapoints (s ! k)) Map.empty =
                   Inr (Value (Elements r ! k)))))"
proof -
  let ?req = "\<lparr>Targets = [query], Start = Some (length (Mem e)),
                    End = Some (Suc (length (Mem e))), URL = None\<rparr>"
  let ?w = "\<lparr>snapTargets = [query], snapStart = Some (Add (Now e) (- sd)),
                  snapEnd = Some (Add (Now e) (- ed)), snapURL = None\<rparr>"
  let ?e2 = "e\<lparr>Mem := Mem e @ [Add (Now e) (- sd), Add (Now e) (- ed)]\<rparr>"
  let ?f = "Split format CHR ''.''"
  obtain resp req1 e1 where tr: "timeRequest deps ?e2 ?req = (resp, req1, e1)"
    by (cases "timeRequest deps ?e2 ?req") auto
  note eff = timeRequest_effect [OF tr]
  note Q = Query_parsed [OF assms(1,2) tr, of format]
  have e': "e' = e1"
    using Q assms(4) by (auto split: sum.splits)
  have sn: "snapshot ?e2 ?req = ?w"
    by (simp add: snapshot_def load_def nth_append)
  have "trace (Cache e1) = trace (snd (snd (Get deps (Cache ?e2) (snapshot ?e2 ?req))))"
    using eff(7) [symmetric] by simp
  with assms(3) sn have tc: "trace (Cache e') = trace (Cache e) @ [?w]"
    using e' by simp
  have q: "GraphiteQueries e' = GraphiteQueries e @ [?req]"
    using eff(1) e' by simp
  have rd: "snapshot e' ?req = ?w"
    using eff(3) e' by (simp add: snapshot_def load_def nth_append)
  have s1: "sd \<noteq> - (2 ^ 63) \<longrightarrow> Add (Now e) (- sd) = Now e - sint sd"
    and s2: "ed \<noteq> - (2 ^ 63) \<longrightarrow> Add (Now e) (- ed) = Now e - sint ed"
    by (simp_all add: Add_def sint_neg)
  have s3: "sd = - (2 ^ 63) \<longrightarrow> Add (Now e) (- sd) = Now e - 2 ^ 63"
    and s4: "ed = - (2 ^ 63) \<longrightarrow> Add (Now e) (- ed) = Now e - 2 ^ 63"
    by (simp_all add: Add_def sint_neg_smallest)
  have ok: "\<forall>r. res = Inr r \<longrightarrow>
           (\<exists>s req1 e1. timeRequest deps ?e2 ?req = (Inr s, req1, e1) \<and>
              parseGraphiteResponse deps req1 s ?f = Inr (Elements r) \<and>
              length (Elements r) = length s \<and>
              (\<forall>k<length s.
                 buildTagSet req1 ?f (s ! k) = Inr (Group (Elements r ! k)) \<and>
                 buildData deps req1 (Datapoints (s ! k)) Map.empty =
                   Inr (Value (Elements r ! k))))"
  proof (intro allI impI)
    fix r assume r: "res = Inr r"
    with Q assms(4) obtain s where s: "resp = Inr s"
      by (cases resp) auto
    with Q assms(4) r obtain results where
      p: "parseGraphiteResponse deps req1 s ?f = Inr results"
      by (cases "parseGraphiteResponse deps req1 s ?f") auto
    with Q assms(4) r s have el: "Elements r = results" by auto
    note I = parseGraphiteResponse_Inr [OF p]
    have "timeRequest deps ?e2 ?req = (Inr s, req1, e1)" using tr s by simp
    moreover have "parseGraphiteResponse deps req1 s ?f = Inr (Elements r)"
      using p el by simp
    moreover have "length (Elements r) = length s" using I(1) el by simp
    moreover have "\<forall>k<length s.
                 buildTagSet req1 ?f (s ! k) = Inr (Group (Elements r ! k)) \<and>
                 buildData deps req1 (Datapoints (s ! k)) Map.empty =
                   Inr (Value (Elements r ! k))"
      using I(2,4) el by simp
    ultimately show "\<exists>s req1 e1. timeRequest deps ?e2 ?req = (Inr s, req1, e1) \<and>
              parseGraphiteResponse deps req1 s ?f = Inr (Elements r) \<and>
              length (Elements r) = length s \<and>
              (\<forall>k<length s.
                 buildTagSet req1 ?f (s ! k) = Inr (Group (Elements r ! k)) \<and>
                 buildData deps req1 (Datapoints (s ! k)) Map.empty =
                   Inr (Value (Elements r ! k)))"
      by (intro exI [of _ s] exI [of _ req1] exI [of _ e1] conjI)
  qed
  from tc q rd s1 s3 s2 s4 ok show ?thesis unfolding Let_def by (intro conjI)
qed

text \<open>
  C9 as stated fails at the smallest duration: with \<open>now = 0\<close> and a lookback that the
  parser gives as \<open>- 2 ^ 63\<close> nanoseconds, the window that the backend reads starts
  \<open>2 ^ 63\<close> nanoseconds before \<open>now\<close>, whereas \<open>now\<close> minus the lookback is \<open>2 ^ 63\<close>
  nanoseconds after \<open>now\<close>.
\<close>

theorem Query_single_window_counterexample:
  "Now e0 = 0 \<and>
   ParseDuration (sampleDeps resp0) ''-300y'' = Inr (- (2 ^ 63)) \<and>
   map snapStart (Cache (snd (Query (sampleDeps resp0) e0 ''q'' ''-300y'' '''' ''''))) =
     [Some (- 9223372036854775808)] \<and>
   Now e0 - sint (- (2 ^ 63) :: 64 word) = 9223372036854775808"
  by (simp add: run_simps sample_simps)

text \<open>
  The theorem at a lookback of two hours, with an end offset of one hour and with an
  empty end offset.
\<close>

theorem Query_single_window_witness:
  "ParseDuration (sampleDeps resp0) ''2h'' = Inr 7200000000000 \<and>
   (\<forall>c q. snd (snd (Get (sampleDeps resp0) c q)) = c @ [q]) \<and>
   Cache (snd (Query (sampleDeps resp0) e0 ''q'' ''2h'' ''1h'' '''')) =
     [\<lparr>snapTargets = [''q''], snapStart = Some (Now e0 - 7200000000000),
       snapEnd = Some (Now e0 - 3600000000000), snapURL = None\<rparr>] \<and>
   Cache (snd (Query (sampleDeps resp0) e0 ''q'' ''2h'' '''' '''')) =
     [\<lparr>snapTargets = [''q''], snapStart = Some (Now e0 - 7200000000000),
       snapEnd = Some (Now e0), snapURL = None\<rparr>] \<and>
   GraphiteQueries (snd (Query (sampleDeps resp0) e0 ''q'' ''2h'' ''1h'' '''')) =
     [\<lparr>Targets = [''q''], Start = Some 0, End = Some 1, URL = None\<rparr>] \<and>
   (\<exists>r. fst (Query (sampleDeps resp0) e0 ''q'' ''2h'' ''1h'' '''') = Inr r \<and>
      parseGraphiteResponse (sampleDeps resp0) req0 resp0 [''''] = Inr (Elements r) \<and>
      length (Elements r) = length resp0)"
proof -
  let ?D = "sampleDeps resp0"
  let ?Q1 = "Query ?D e0 ''q'' ''2h'' ''1h'' ''''"
  let ?Q2 = "Query ?D e0 ''q'' ''2h'' '''' ''''"
  let ?sd = "7200000000000 :: 64 word"
  let ?ed = "3600000000000 :: 64 word"
  have sd: "ParseDuration ?D ''2h'' = Inr ?sd" by (simp add: sample_simps)
  have ed1: "''1h'' = '''' \<and> ?ed = 0 \<or> ''1h'' \<noteq> '''' \<and> ParseDuration ?D ''1h'' = Inr ?ed"
    by (simp add: sample_simps)
  have ed2: "'''' = '''' \<and> (0 :: 64 word) = 0 \<or>
     '''' \<noteq> '''' \<and> ParseDuration ?D '''' = Inr 0"
    by simp
  have b1: "?Q1 = (fst ?Q1, snd ?Q1)" and b2: "?Q2 = (fst ?Q2, snd ?Q2)" by simp_all
  have n1: "?sd \<noteq> - (2 ^ 63)" and n2: "?ed \<noteq> - (2 ^ 63)"
    and n3: "(0 :: 64 word) \<noteq> - (2 ^ 63)"
    by simp_all
  note W1 = Query_single_window [where trace = "\<lambda>c. c", OF sd ed1 sample_trace b1,
      unfolded Let_def]
  note W2 = Query_single_window [where trace = "\<lambda>c. c", OF sd ed2 sample_trace b2,
      unfolded Let_def]
  from W1 [THEN conjunct1]
    W1 [THEN conjunct2, THEN conjunct2, THEN conjunct2, THEN conjunct1]
    W1 [THEN conjunct2, THEN conjunct2, THEN conjunct2, THEN conjunct2, THEN conjunct2,
      THEN conjunct1] n1 n2
  have w1: "Cache (snd ?Q1) = [\<lparr>snapTargets = [''q''], snapStart = Some (Now e0 - 7200000000000),
       snapEnd = Some (Now e0 - 3600000000000), snapURL = None\<rparr>]"
    by (simp add: e0_def)
  from W2 [THEN conjunct1]
    W2 [THEN conjunct2, THEN conjunct2, THEN conjunct2, THEN conjunct1]
    W2 [THEN conjunct2, THEN conjunct2, THEN conjunct2, THEN conjunct2, THEN conjunct2,
      THEN conjunct1] n1 n3
  have w2: "Cache (snd ?Q2) = [\<lparr>snapTargets = [''q''], snapStart = Some (Now e0 - 7200000000000),
       snapEnd = Some (Now e0), snapURL = None\<rparr>]"
    by (simp add: e0_def)
  from W1 [THEN conjunct2, THEN conjunct1]
  have g1: "GraphiteQueries (snd ?Q1) =
     [\<lparr>Targets = [''q''], Start = Some 0, End = Some 1, URL = None\<rparr>]"
    by (simp add: e0_def)
  have ok: "fst ?Q1 = Inr \<lparr>Elements = [\<lparr>Value = [10000000000 \<mapsto> 1],
      Group = [''key'' \<mapsto> ''a'']\<rparr>], IgnoreUnjoined = False, IgnoreOtherUnjoined = False\<rparr>"
    by (simp add: Query_sample)
  have p: "parseGraphiteResponse ?D req0 resp0 [''''] =
     Inr [\<lparr>Value = [10000000000 \<mapsto> 1], Group = [''key'' \<mapsto> ''a'']\<rparr>]"
    by (rule parse_sample)
  have l: "length [\<lparr>Value = [10000000000 \<mapsto> (1::rat)], Group = [''key'' \<mapsto> ''a'']\<rparr>] =
     length resp0"
    by (simp add: resp0_def)
  have ex: "\<exists>r. fst ?Q1 = Inr r \<and>
      parseGraphiteResponse ?D req0 resp0 [''''] = Inr (Elements r) \<and>
      length (Elements r) = length resp0"
    using ok p l by simp
  from sd sample_trace [of resp0] w1 w2 g1 ex show ?thesis by (intro conjI)
qed

text \<open>
  C10. Every result set that \<^verbatim>\<open>Band\<close> returns has both join flags set, and every result
  set that \<^verbatim>\<open>Query\<close> returns has both unset, whatever the arguments.
\<close>

theorem join_flags:
  "(\<forall>r e'. Band deps e query duration period format num = (Inr r, e') \<longrightarrow>
      IgnoreUnjoined r \<and> IgnoreOtherUnjoined r) \<and>
   (\<forall>r e'. Query deps e query sduration eduration format = (Inr r, e') \<longrightarrow>
      \<not> IgnoreUnjoined r \<and> \<not> IgnoreOtherUnjoined r)"
proof (rule conjI; intro allI impI)
  fix r e'
  assume B: "Band deps e query duration period format num = (Inr r, e')"
  show "IgnoreUnjoined r \<and> IgnoreOtherUnjoined r"
  proof (cases "ParseDuration deps duration")
    case (Inl x)
    with B show ?thesis by (simp add: Band_def)
  next
    case (Inr d)
    note d = this
    show ?thesis
    proof (cases "ParseDuration deps period")
      case (Inl x)
      with B d show ?thesis by (simp add: Band_def)
    next
      case (Inr p)
      let ?err0 = "if flt num 1 \<or> fgt num 100 then Some NumOutOfBounds else None"
      let ?now = "length (Mem e)"
      let ?req = "\<lparr>Targets = [query], Start = Some (Suc ?now), End = Some ?now,
         URL = None\<rparr>"
      let ?r0 = "\<lparr>Elements = [], IgnoreUnjoined = True, IgnoreOtherUnjoined = True\<rparr>
         :: 'a ValueSet"
      let ?e2 = "e\<lparr>Mem := Mem e @ [Now e, Add (Now e) (- d)]\<rparr>"
      obtain err' r' e'' where loop:
        "bandLoop deps d p format (toInt deps num) 0 ?now ?req ?r0 ?err0 ?e2 = (err', r', e'')"
        by (cases "bandLoop deps d p format (toInt deps num) 0 ?now ?req ?r0 ?err0 ?e2") auto
      from Band_parsed [OF d Inr loop] B have "r = r'" by (cases err') simp_all
      with bandLoop_flags [OF loop] show ?thesis by simp
    qed
  qed
next
  fix r e'
  assume "Query deps e query sduration eduration format = (Inr r, e')"
  then show "\<not> IgnoreUnjoined r \<and> \<not> IgnoreOtherUnjoined r"
    by (auto simp: Query_def Let_def split: sum.splits prod.splits if_splits)
qed

text \<open>The theorem at a call of each that succeeds.\<close>

theorem join_flags_witness:
  "Band (sampleDeps resp0) e0 ''q'' ''1h'' ''2h'' '''' (Finite 1) =
     (Inr \<lparr>Elements = [\<lparr>Value = [10000000000 \<mapsto> 1], Group = [''key'' \<mapsto> ''a'']\<rparr>],
           IgnoreUnjoined = True, IgnoreOtherUnjoined = True\<rparr>,
      \<lparr>Now = 0,
       GraphiteQueries = [\<lparr>Targets = [''q''], Start = Some 2, End = Some 0, URL = None\<rparr>],
       Cache = [\<lparr>snapTargets = [''q''], snapStart = Some (- 10800000000000),
                 snapEnd = Some (- 7200000000000), snapURL = None\<rparr>],
       Mem = [- 7200000000000, - 3600000000000, - 10800000000000]\<rparr>) \<and>
   Query (sampleDeps resp0) e0 ''q'' ''2h'' ''1h'' '''' =
     (Inr \<lparr>Elements = [\<lparr>Value = [10000000000 \<mapsto> 1], Group = [''key'' \<mapsto> ''a'']\<rparr>],
           IgnoreUnjoined = False, IgnoreOtherUnjoined = False\<rparr>,
      \<lparr>Now = 0,
       GraphiteQueries = [\<lparr>Targets = [''q''], Start = Some 0, End = Some 1, URL = None\<rparr>],
       Cache = [\<lparr>snapTargets = [''q''], snapStart = Some (- 7200000000000),
                 snapEnd = Some (- 3600000000000), snapURL = None\<rparr>],
       Mem = [- 7200000000000, - 3600000000000]\<rparr>)"
proof -
  let ?els = "[\<lparr>Value = [10000000000 \<mapsto> (1::rat)], Group = [''key'' \<mapsto> ''a'']\<rparr>]"
  let ?eb = "\<lparr>Now = 0,
       GraphiteQueries = [\<lparr>Targets = [''q''], Start = Some 2, End = Some 0, URL = None\<rparr>],
       Cache = [\<lparr>snapTargets = [''q''], snapStart = Some (- 10800000000000),
                 snapEnd = Some (- 7200000000000), snapURL = None\<rparr>],
       Mem = [- 7200000000000, - 3600000000000, - 10800000000000]\<rparr>"
  let ?eq = "\<lparr>Now = 0,
       GraphiteQueries = [\<lparr>Targets = [''q''], Start = Some 0, End = Some 1, URL = None\<rparr>],
       Cache = [\<lparr>snapTargets = [''q''], snapStart = Some (- 7200000000000),
                 snapEnd = Some (- 3600000000000), snapURL = None\<rparr>],
       Mem = [- 7200000000000, - 3600000000000]\<rparr>"
  obtain rb where b: "Band (sampleDeps resp0) e0 ''q'' ''1h'' ''2h'' '''' (Finite 1) =
      (Inr rb, ?eb)"
    and rb: "Elements rb = ?els"
    using Band_sample_1 by simp
  obtain rq where q: "Query (sampleDeps resp0) e0 ''q'' ''2h'' ''1h'' '''' = (Inr rq, ?eq)"
    and rq: "Elements rq = ?els"
    using Query_sample by simp
  note J = join_flags [where deps = "sampleDeps resp0" and e = e0 and query = "''q''"
      and duration = "''1h''" and period = "''2h''" and format = "''''" and num = "Finite 1"
      and sduration = "''2h''" and eduration = "''1h''"]
  from J b have "IgnoreUnjoined rb \<and> IgnoreOtherUnjoined rb" by blast
  with rb have "rb = \<lparr>Elements = ?els, IgnoreUnjoined = True, IgnoreOtherUnjoined = True\<rparr>"
    by (cases rb) simp
  moreover from J q have "\<not> IgnoreUnjoined rq \<and> \<not> IgnoreOtherUnjoined rq" by blast
  with rq have "rq = \<lparr>Elements = ?els, IgnoreUnjoined = False, IgnoreOtherUnjoined = False\<rparr>"
    by (cases rq) simp
  ultimately show ?thesis using b q by simp
qed

end
